theory Spec2Isabelle
  imports Complex_Main "HOL-Library.Stream"
begin

section \<open>Recurrent network helpers of theanets: the windowed batch sampler and the predictor error\<close>

text \<open>
  The development embeds \<^verbatim>\<open>theanets/recurrent.py\<close>: the function \<^verbatim>\<open>batches\<close> with its
  two closures \<^verbatim>\<open>unlabeled_sample\<close> and \<^verbatim>\<open>labeled_sample\<close>, and the methods
  \<^verbatim>\<open>Predictor.error\<close> and \<^verbatim>\<open>Predictor.generate_prediction\<close>.

  The numpy operations the sampler calls (\<^verbatim>\<open>np.zeros\<close>, basic slicing, slice assignment with
  broadcasting, \<^verbatim>\<open>numpy.random.randint\<close>) are library code; they are modelled from numpy's
  documented behaviour on the inputs the sampler can pass to them.
\<close>

subsection \<open>Python exceptions\<close>

datatype py_error = ValueError | IndexError

subsection \<open>Arrays\<close>

text \<open>
  A two-dimensional ndarray (time steps by variables): its rows and its number of columns
  (\<^verbatim>\<open>shape[1]\<close>, which numpy keeps even when there is no row).
\<close>

record 'a array2 =
  ncols :: nat
  rows :: "'a list list"

text \<open>
  A three-dimensional ndarray: its shape and its entries, indexed by time step, then batch
  slot, then variable.
\<close>

record 'a array3 =
  dims :: "nat \<times> nat \<times> nat"
  cells :: "'a list list list"

definition wf2 :: "'a array2 \<Rightarrow> bool" where
  "wf2 a = list_all (\<lambda>r. length r = ncols a) (rows a)"

definition wf3 :: "'a array3 \<Rightarrow> bool" where
  "wf3 t = (case dims t of (s, b, d) \<Rightarrow>
     length (cells t) = s \<and>
     list_all (\<lambda>p. length p = b \<and> list_all (\<lambda>r. length r = d) p) (cells t))"

text \<open>\<^verbatim>\<open>len(a)\<close>\<close>

definition len :: "'a array2 \<Rightarrow> nat" where
  "len a = length (rows a)"

text \<open>
  \<^verbatim>\<open>np.zeros((s, b, d), FLOAT)\<close>: numpy raises ValueError on a negative dimension.
\<close>

definition np_zeros :: "int \<times> int \<times> int \<Rightarrow> py_error + ('b::zero) array3" where
  "np_zeros shp = (case shp of (s, b, d) \<Rightarrow>
     if s < 0 \<or> b < 0 \<or> d < 0 then Inl ValueError
     else Inr \<lparr>dims = (nat s, nat b, nat d),
               cells = replicate (nat s) (replicate (nat b) (replicate (nat d) 0))\<rparr>)"

text \<open>
  A bound of a Python slice over a sequence of length \<open>n\<close>: a negative bound counts from
  the end, and the result is clipped to \<open>[0, n]\<close>.
\<close>

definition slice_bound :: "nat \<Rightarrow> int \<Rightarrow> nat" where
  "slice_bound n i = (if i < 0 then nat (max 0 (i + int n)) else min (nat i) n)"

text \<open>\<^verbatim>\<open>a[lo:hi]\<close> on the first axis.\<close>

definition slice2 :: "'a array2 \<Rightarrow> int \<Rightarrow> int \<Rightarrow> 'a array2" where
  "slice2 a lo hi =
     (let l = slice_bound (len a) lo; h = slice_bound (len a) hi
      in \<lparr>ncols = ncols a, rows = take (h - l) (drop l (rows a))\<rparr>)"

text \<open>
  Broadcasting one row of a source with \<open>c\<close> columns to \<open>d\<close> columns: with \<open>c = d\<close> the row
  is taken as it is, otherwise (\<open>c = 1\<close>) its entry is repeated.
\<close>

definition bc_row :: "nat \<Rightarrow> nat \<Rightarrow> 'b list \<Rightarrow> 'b list" where
  "bc_row c d r = (if c = d then r else replicate d (hd r))"

text \<open>\<^verbatim>\<open>xs[:, i, :]\<close>, read.\<close>

definition get_slot :: "'b array3 \<Rightarrow> nat \<Rightarrow> 'b list list" where
  "get_slot t i = map (\<lambda>p. p ! i) (cells t)"

text \<open>
  \<^verbatim>\<open>xs[:, i, :] = v\<close>. The target has shape \<open>(s, d)\<close> and the source \<open>(k, c)\<close>; numpy
  broadcasts the source when each of its dimensions equals the target's or is one, and
  raises ValueError otherwise; an index \<open>i\<close> outside the batch axis raises IndexError. The
  entries are converted to the dtype of the target by \<open>FLOAT\<close>.
\<close>

definition set_slot :: "('a \<Rightarrow> 'b) \<Rightarrow> 'b array3 \<Rightarrow> nat \<Rightarrow> 'a array2 \<Rightarrow> py_error + 'b array3" where
  "set_slot FLOAT t i v = (case dims t of (s, b, d) \<Rightarrow>
     let k = len v; c = ncols v in
     if \<not> i < b then Inl IndexError
     else if \<not> ((k = s \<or> k = 1) \<and> (c = d \<or> c = 1)) then Inl ValueError
     else Inr (t\<lparr>cells :=
       map (\<lambda>n. (cells t ! n)[i := bc_row c d (map FLOAT (rows v ! (if k = s then n else 0)))])
         [0..<s]\<rparr>))"

subsection \<open>The random number generator\<close>

text \<open>
  The state of \<^verbatim>\<open>numpy.random\<close> is a tape of natural numbers, one cell for each draw still
  to come. \<^verbatim>\<open>randint(low)\<close> draws from \<open>[0, low)\<close>: it reads the next cell, reduced into the
  range, and moves on; numpy raises ValueError when the range is empty, and the state is
  then as before.
\<close>

definition randint :: "int \<Rightarrow> nat stream \<Rightarrow> (py_error + int) \<times> nat stream" where
  "randint low g =
     (if low \<le> 0 then (Inl ValueError, g)
      else (Inr (int (shd g mod nat low)), stl g))"

subsection \<open>The store\<close>

text \<open>
  The sampler closes over references to the caller's datasets and returns references to
  the arrays it allocates, so the model keeps a store: the two-dimensional datasets by
  address, the three-dimensional arrays allocated so far (an address is a position in the
  list, and an allocation appends), and the generator state. \<open>FLOAT\<close>, the conversion to
  \<^verbatim>\<open>theano.config.floatX\<close>, is configuration from outside the module and a parameter.
\<close>

record ('a, 'b) world =
  mats :: "nat \<Rightarrow> 'a array2"
  tensors :: "'b array3 list"
  rng :: "nat stream"

subsection \<open>batches\<close>

text \<open>The loop \<^verbatim>\<open>for i in range(batch_size)\<close> of \<^verbatim>\<open>unlabeled_sample\<close>, over the indices left.\<close>

fun unlabeled_loop ::
  "('a \<Rightarrow> 'b) \<Rightarrow> nat \<Rightarrow> int \<Rightarrow> nat \<Rightarrow> nat list \<Rightarrow> ('a, 'b) world
     \<Rightarrow> (py_error + unit) \<times> ('a, 'b) world" where
  "unlabeled_loop FLOAT samples steps xs [] w = (Inr (), w)"
| "unlabeled_loop FLOAT samples steps xs (i # is) w =
     (case randint (int (len (mats w samples)) - steps) (rng w) of
        (Inl e, g) \<Rightarrow> (Inl e, w\<lparr>rng := g\<rparr>)
      | (Inr j, g) \<Rightarrow>
          (case set_slot FLOAT (tensors w ! xs) i (slice2 (mats w samples) j (j + steps)) of
             Inl e \<Rightarrow> (Inl e, w\<lparr>rng := g\<rparr>)
           | Inr x \<Rightarrow>
               unlabeled_loop FLOAT samples steps xs is
                 (w\<lparr>rng := g, tensors := (tensors w)[xs := x]\<rparr>)))"

definition unlabeled_sample ::
  "('a \<Rightarrow> 'b::zero) \<Rightarrow> nat \<Rightarrow> int \<Rightarrow> int \<Rightarrow> ('a, 'b) world
     \<Rightarrow> (py_error + nat list) \<times> ('a, 'b) world" where
  "unlabeled_sample FLOAT samples steps batch_size w =
     (case np_zeros (steps, batch_size, int (ncols (mats w samples))) of
        Inl e \<Rightarrow> (Inl e, w)
      | Inr z \<Rightarrow>
          (let xs = length (tensors w);
               w1 = w\<lparr>tensors := tensors w @ [z]\<rparr>
           in case unlabeled_loop FLOAT samples steps xs [0..<nat batch_size] w1 of
                (Inl e, w2) \<Rightarrow> (Inl e, w2)
              | (Inr u, w2) \<Rightarrow> (Inr [xs], w2)))"

text \<open>The loop of \<^verbatim>\<open>labeled_sample\<close>.\<close>

fun labeled_loop ::
  "('a \<Rightarrow> 'b) \<Rightarrow> nat \<Rightarrow> nat \<Rightarrow> int \<Rightarrow> nat \<Rightarrow> nat \<Rightarrow> nat list \<Rightarrow> ('a, 'b) world
     \<Rightarrow> (py_error + unit) \<times> ('a, 'b) world" where
  "labeled_loop FLOAT samples labels steps xs ys [] w = (Inr (), w)"
| "labeled_loop FLOAT samples labels steps xs ys (i # is) w =
     (case randint (int (len (mats w samples)) - steps) (rng w) of
        (Inl e, g) \<Rightarrow> (Inl e, w\<lparr>rng := g\<rparr>)
      | (Inr j, g) \<Rightarrow>
          (case set_slot FLOAT (tensors w ! xs) i (slice2 (mats w samples) j (j + steps)) of
             Inl e \<Rightarrow> (Inl e, w\<lparr>rng := g\<rparr>)
           | Inr x \<Rightarrow>
               (let w1 = w\<lparr>rng := g, tensors := (tensors w)[xs := x]\<rparr>
                in case set_slot FLOAT (tensors w1 ! ys) i
                          (slice2 (mats w1 labels) j (j + steps)) of
                     Inl e \<Rightarrow> (Inl e, w1)
                   | Inr y \<Rightarrow>
                       labeled_loop FLOAT samples labels steps xs ys is
                         (w1\<lparr>tensors := (tensors w1)[ys := y]\<rparr>))))"

definition labeled_sample ::
  "('a \<Rightarrow> 'b::zero) \<Rightarrow> nat \<Rightarrow> nat \<Rightarrow> int \<Rightarrow> int \<Rightarrow> ('a, 'b) world
     \<Rightarrow> (py_error + nat list) \<times> ('a, 'b) world" where
  "labeled_sample FLOAT samples labels steps batch_size w =
     (case np_zeros (steps, batch_size, int (ncols (mats w samples))) of
        Inl e \<Rightarrow> (Inl e, w)
      | Inr zx \<Rightarrow>
          (let xs = length (tensors w);
               w1 = w\<lparr>tensors := tensors w @ [zx]\<rparr>
           in case np_zeros (steps, batch_size, int (ncols (mats w1 labels))) of
                Inl e \<Rightarrow> (Inl e, w1)
              | Inr zy \<Rightarrow>
                  (let ys = length (tensors w1);
                       w2 = w1\<lparr>tensors := tensors w1 @ [zy]\<rparr>
                   in case labeled_loop FLOAT samples labels steps xs ys
                             [0..<nat batch_size] w2 of
                        (Inl e, w3) \<Rightarrow> (Inl e, w3)
                      | (Inr u, w3) \<Rightarrow> (Inr [xs, ys], w3))))"

text \<open>
  \<^verbatim>\<open>batches(samples, labels, steps, batch_size)\<close> returns one of the two closures; \<open>None\<close>
  for \<open>labels\<close> is Python's \<^verbatim>\<open>None\<close>. Building the closure evaluates nothing else.
\<close>

definition batches ::
  "('a \<Rightarrow> 'b::zero) \<Rightarrow> nat \<Rightarrow> nat option \<Rightarrow> int \<Rightarrow> int
     \<Rightarrow> ('a, 'b) world \<Rightarrow> (py_error + nat list) \<times> ('a, 'b) world" where
  "batches FLOAT samples labels steps batch_size =
     (case labels of
        None \<Rightarrow> unlabeled_sample FLOAT samples steps batch_size
      | Some l \<Rightarrow> labeled_sample FLOAT samples l steps batch_size)"

subsection \<open>Windows and draws\<close>

text \<open>
  The rows \<open>j, \<dots>, j + steps - 1\<close> of a dataset, converted to the dtype of the batch: what
  \<^verbatim>\<open>a[j:j+steps]\<close> holds when the window lies inside the dataset.
\<close>

definition window :: "('a \<Rightarrow> 'b) \<Rightarrow> 'a array2 \<Rightarrow> int \<Rightarrow> int \<Rightarrow> 'b list list" where
  "window FLOAT a steps j = map (map FLOAT) (take (nat steps) (drop (nat j) (rows a)))"

text \<open>
  The value of the \<open>p\<close>-th call of \<^verbatim>\<open>randint(n - steps)\<close> that starts from the generator
  state \<open>g\<close> (lemma \<open>randint_offset\<close> below).
\<close>

definition offset :: "nat \<Rightarrow> int \<Rightarrow> nat stream \<Rightarrow> nat \<Rightarrow> int" where
  "offset n steps g p = int (g !! p mod nat (int n - steps))"

subsection \<open>What a call hands to its caller\<close>

text \<open>
  The sampler returns references. What the caller gets is the error, or the arrays behind
  the references in the store as the call leaves it; \<open>data_array\<close> is the first of them,
  \<^verbatim>\<open>xs\<close>.
\<close>

definition returned ::
  "(py_error + nat list) \<times> ('a, 'b) world \<Rightarrow> py_error + 'b array3 list" where
  "returned run = (case fst run of
      Inl e \<Rightarrow> Inl e
    | Inr as \<Rightarrow> Inr (map (\<lambda>a. tensors (snd run) ! a) as))"

definition data_array ::
  "(py_error + nat list) \<times> ('a, 'b) world \<Rightarrow> py_error + 'b array3" where
  "data_array run = (case fst run of
      Inl e \<Rightarrow> Inl e
    | Inr as \<Rightarrow> Inr (tensors (snd run) ! hd as))"

subsection \<open>An example store\<close>

text \<open>
  Four frames of two variables at address 0, labels of one variable for them at address 1,
  a longer label series at address 2 and a shorter one elsewhere; no batch allocated yet;
  the generator about to produce 0, 1, 2, \<dots>
\<close>

definition demo_world :: "(int, real) world" where
  "demo_world =
     \<lparr>mats = (\<lambda>a. if a = 0 then \<lparr>ncols = 2, rows = [[1, 2], [3, 4], [5, 6], [7, 8]]\<rparr>
                  else if a = 1 then \<lparr>ncols = 1, rows = [[10], [20], [30], [40]]\<rparr>
                  else if a = 2 then \<lparr>ncols = 1, rows = [[10], [20], [30], [40], [50], [60]]\<rparr>
                  else \<lparr>ncols = 1, rows = [[10], [20]]\<rparr>),
      tensors = [],
      rng = siterate Suc 0\<rparr>"

subsection \<open>Predictor\<close>

text \<open>
  \<^verbatim>\<open>Predictor.error\<close> builds a Theano expression over the symbolic input \<^verbatim>\<open>self.x\<close>, the
  weights \<^verbatim>\<open>self.weights\<close> (both declared \<^verbatim>\<open>tensor3\<close> in \<^verbatim>\<open>Autoencoder.setup_vars\<close>) and
  the network output. The model is the value of that expression once the variables are bound
  to arrays, over the real numbers. The flag \<^verbatim>\<open>self.weighted\<close> is set by the feedforward
  base class.
\<close>

record predictor =
  self_x :: "real array3"
  self_weights :: "real array3"
  self_weighted :: bool

text \<open>\<^verbatim>\<open>t[1:]\<close> and \<^verbatim>\<open>t[:-1]\<close> along the time axis.\<close>

definition tail3 :: "'b array3 \<Rightarrow> 'b array3" where
  "tail3 t = (case dims t of (s, b, d) \<Rightarrow> \<lparr>dims = (s - 1, b, d), cells = tl (cells t)\<rparr>)"

definition init3 :: "'b array3 \<Rightarrow> 'b array3" where
  "init3 t = (case dims t of (s, b, d) \<Rightarrow> \<lparr>dims = (s - 1, b, d), cells = butlast (cells t)\<rparr>)"

text \<open>
  An elementwise operation on two 3-tensors. No dimension of a \<^verbatim>\<open>tensor3\<close> is declared
  broadcastable, so Theano requires equal shapes when the expression is evaluated and
  raises ValueError otherwise.
\<close>

definition elementwise ::
  "(real \<Rightarrow> real \<Rightarrow> real) \<Rightarrow> real array3 \<Rightarrow> real array3 \<Rightarrow> py_error + real array3" where
  "elementwise f a b =
     (if dims a \<noteq> dims b then Inl ValueError
      else Inr \<lparr>dims = dims a, cells = map2 (map2 (map2 f)) (cells a) (cells b)\<rparr>)"

text \<open>\<^verbatim>\<open>t.sum()\<close> and the number of entries of \<open>t\<close>.\<close>

definition sum3 :: "real array3 \<Rightarrow> real" where
  "sum3 t = (\<Sum>p\<leftarrow>cells t. \<Sum>r\<leftarrow>p. sum_list r)"

definition size3 :: "'b array3 \<Rightarrow> nat" where
  "size3 t = (case dims t of (s, b, d) \<Rightarrow> s * b * d)"

text \<open>
  Division of two scalars. A zero divisor gives no number (in floating point, a nan or an
  infinity): \<open>None\<close>.
\<close>

definition fdiv :: "real \<Rightarrow> real \<Rightarrow> real option" where
  "fdiv a b = (if b = 0 then None else Some (a / b))"

text \<open>\<^verbatim>\<open>t.mean()\<close>: the sum over the number of entries.\<close>

definition mean3 :: "real array3 \<Rightarrow> real option" where
  "mean3 t = fdiv (sum3 t) (real (size3 t))"

definition generate_prediction :: "real array3 \<Rightarrow> real array3" where
  "generate_prediction y = y"

definition Predictor_error :: "predictor \<Rightarrow> real array3 \<Rightarrow> py_error + real option" where
  "Predictor_error self output =
     (case elementwise (-) (tail3 (self_x self)) (init3 (generate_prediction output)) of
        Inl e \<Rightarrow> Inl e
      | Inr err \<Rightarrow>
          if self_weighted self then
            (case elementwise (*) (tail3 (self_weights self)) err of
               Inl e \<Rightarrow> Inl e
             | Inr we \<Rightarrow>
                 (case elementwise (*) we err of
                    Inl e \<Rightarrow> Inl e
                  | Inr wee \<Rightarrow> Inr (fdiv (sum3 wee) (sum3 (tail3 (self_weights self))))))
          else
            (case elementwise (*) err err of
               Inl e \<Rightarrow> Inl e
             | Inr sq \<Rightarrow> Inr (mean3 sq)))"

text \<open>
  The error as the claim words it, entry by entry: the mean, over the \<open>(s - 1) b d\<close> entries,
  of the squared difference between the input one time step ahead and the output.
\<close>

definition shifted_mse :: "real array3 \<Rightarrow> real array3 \<Rightarrow> real" where
  "shifted_mse x y = (case dims x of (s, b, d) \<Rightarrow>
     (\<Sum>t\<leftarrow>[0..<s - 1]. \<Sum>i\<leftarrow>[0..<b]. \<Sum>k\<leftarrow>[0..<d].
        (cells x ! Suc t ! i ! k - cells y ! t ! i ! k)\<^sup>2) / real ((s - 1) * b * d))"

text \<open>An input and an output of three time steps, one batch slot and two variables.\<close>

definition demo_x :: "real array3" where
  "demo_x = \<lparr>dims = (3, 1, 2), cells = [[[1, 2]], [[3, 5]], [[4, 4]]]\<rparr>"

definition demo_y :: "real array3" where
  "demo_y = \<lparr>dims = (3, 1, 2), cells = [[[2, 5]], [[4, 2]], [[9, 9]]]\<rparr>"

section \<open>Properties\<close>

subsection \<open>Array operations\<close>

lemma np_zeros_ok:
  "0 \<le> s \<Longrightarrow> 0 \<le> b \<Longrightarrow> np_zeros (s, b, int d) =
     Inr \<lparr>dims = (nat s, nat b, d), cells = replicate (nat s) (replicate (nat b) (replicate d 0))\<rparr>"
  by (simp add: np_zeros_def)

lemma np_zeros_neg: "s < 0 \<or> b < 0 \<Longrightarrow> np_zeros (s, b, d) = Inl ValueError"
  by (auto simp: np_zeros_def)

lemma wf3_zeros: "wf3 \<lparr>dims = (s, b, d), cells = replicate s (replicate b (replicate d 0))\<rparr>"
  by (simp add: wf3_def list_all_length)

lemma slice2_window:
  assumes "0 \<le> j" "0 \<le> steps" "j + steps \<le> int (len a)"
  shows "rows (slice2 a j (j + steps)) = take (nat steps) (drop (nat j) (rows a))"
    and "len (slice2 a j (j + steps)) = nat steps"
    and "ncols (slice2 a j (j + steps)) = ncols a"
  using assms by (auto simp: slice2_def slice_bound_def len_def Let_def min_def nat_add_distrib)

lemma wf2_slice2: "wf2 a \<Longrightarrow> wf2 (slice2 a lo hi)"
  unfolding wf2_def slice2_def Let_def list_all_iff
  by (auto dest!: in_set_takeD in_set_dropD)

lemma set_slot_dims: "set_slot F t i v = Inr t' \<Longrightarrow> dims t' = dims t"
  by (auto simp: set_slot_def Let_def split: prod.splits if_splits)

lemma set_slot_ok:
  assumes "dims t = (s, b, d)" "i < b" "len v = s" "ncols v = d"
  shows "set_slot F t i v =
     Inr (t\<lparr>cells := map (\<lambda>n. (cells t ! n)[i := map F (rows v ! n)]) [0..<s]\<rparr>)"
  using assms by (simp add: set_slot_def Let_def bc_row_def)

lemma get_slot_set_same:
  assumes "wf3 t" "dims t = (s, b, d)" "i < b"
  shows "get_slot (t\<lparr>cells := map (\<lambda>n. (cells t ! n)[i := f n]) [0..<s]\<rparr>) i = map f [0..<s]"
  using assms by (auto simp: get_slot_def wf3_def list_all_length)

lemma get_slot_set_other:
  assumes "wf3 t" "dims t = (s, b, d)" "i' \<noteq> i"
  shows "get_slot (t\<lparr>cells := map (\<lambda>n. (cells t ! n)[i := f n]) [0..<s]\<rparr>) i' = get_slot t i'"
  using assms by (auto simp: get_slot_def wf3_def list_all_length intro!: nth_equalityI)

lemma wf3_set:
  assumes "wf3 t" "dims t = (s, b, d)" "\<forall>n<s. length (f n) = d"
  shows "wf3 (t\<lparr>cells := map (\<lambda>n. (cells t ! n)[i := f n]) [0..<s]\<rparr>)"
proof (cases "i < b")
  case True
  with assms show ?thesis by (auto simp: wf3_def list_all_length nth_list_update)
next
  case False
  with assms show ?thesis by (auto simp: wf3_def list_all_length)
qed

lemma map_nth_upt: "length xs = n \<Longrightarrow> map (\<lambda>k. f (xs ! k)) [0..<n] = map f xs"
  by (auto intro: nth_equalityI)

subsection \<open>The draws\<close>

lemma randint_offset:
  "steps < int n \<Longrightarrow>
   randint (int n - steps) (sdrop p g) = (Inr (offset n steps g p), sdrop (Suc p) g)"
  by (simp add: randint_def offset_def sdrop_snth)

lemma offset_range: "steps < int n \<Longrightarrow> 0 \<le> offset n steps g p \<and> offset n steps g p < int n - steps"
  by (simp add: offset_def nat_less_iff zmod_int)

subsection \<open>One assignment of a window\<close>

lemma set_slot_window:
  assumes "0 \<le> j" "0 \<le> steps" "j + steps \<le> int (len a)" "wf2 a"
    and "wf3 t" "dims t = (nat steps, b, ncols a)" "i < b"
  shows "\<exists>t'. set_slot F t i (slice2 a j (j + steps)) = Inr t' \<and> dims t' = dims t \<and> wf3 t' \<and>
           get_slot t' i = window F a steps j \<and>
           (\<forall>i'. i' \<noteq> i \<longrightarrow> get_slot t' i' = get_slot t i')"
proof -
  let ?v = "slice2 a j (j + steps)"
  let ?x = "t\<lparr>cells := map (\<lambda>n. (cells t ! n)[i := map F (rows ?v ! n)]) [0..<nat steps]\<rparr>"
  have sl: "rows ?v = take (nat steps) (drop (nat j) (rows a))" "len ?v = nat steps"
     "ncols ?v = ncols a"
    using slice2_window[OF assms(1,2,3)] by simp_all
  have ss: "set_slot F t i ?v = Inr ?x"
    using set_slot_ok[OF assms(6,7) sl(2,3)] .
  have lr: "length (rows ?v) = nat steps"
    using sl(2) by (simp add: len_def)
  have "wf2 ?v" using assms(4) by (rule wf2_slice2)
  then have lenrow: "\<forall>n<nat steps. length (map F (rows ?v ! n)) = ncols a"
    using lr sl(3) by (auto simp: wf2_def list_all_length)
  have wfx: "wf3 ?x"
    using wf3_set[OF assms(5,6) lenrow] .
  have "get_slot ?x i = map (\<lambda>n. map F (rows ?v ! n)) [0..<nat steps]"
    by (rule get_slot_set_same[OF assms(5,6,7)])
  also have "\<dots> = map (map F) (rows ?v)"
    by (rule map_nth_upt[OF lr])
  also have "\<dots> = window F a steps j"
    by (simp only: window_def sl(1))
  finally have sloti: "get_slot ?x i = window F a steps j" .
  have other: "\<forall>i'. i' \<noteq> i \<longrightarrow> get_slot ?x i' = get_slot t i'"
  proof (intro allI impI)
    fix i' assume "i' \<noteq> i"
    then show "get_slot ?x i' = get_slot t i'"
      by (rule get_slot_set_other[OF assms(5,6)])
  qed
  show ?thesis
  proof (intro exI[of _ ?x] conjI)
    show "set_slot F t i ?v = Inr ?x" by (rule ss)
    show "dims ?x = dims t" by simp
    show "wf3 ?x" by (rule wfx)
    show "get_slot ?x i = window F a steps j" by (rule sloti)
    show "\<forall>i'. i' \<noteq> i \<longrightarrow> get_slot ?x i' = get_slot t i'" by (rule other)
  qed
qed

subsection \<open>The sampler on a valid window\<close>

lemma unlabeled_loop_valid:
  assumes "0 \<le> steps" "steps < int (len (mats w sa))" "wf2 (mats w sa)"
    and "xa < length (tensors w)" "dims (tensors w ! xa) = (nat steps, b, ncols (mats w sa))"
    and "wf3 (tensors w ! xa)" "distinct is" "\<forall>i\<in>set is. i < b"
  shows "\<exists>w'. unlabeled_loop F sa steps xa is w = (Inr (), w') \<and>
           mats w' = mats w \<and> rng w' = sdrop (length is) (rng w) \<and>
           length (tensors w') = length (tensors w) \<and>
           (\<forall>a. a \<noteq> xa \<longrightarrow> tensors w' ! a = tensors w ! a) \<and>
           dims (tensors w' ! xa) = dims (tensors w ! xa) \<and> wf3 (tensors w' ! xa) \<and>
           (\<forall>p<length is. get_slot (tensors w' ! xa) (is ! p) =
               window F (mats w sa) steps (offset (len (mats w sa)) steps (rng w) p)) \<and>
           (\<forall>i. i \<notin> set is \<longrightarrow> get_slot (tensors w' ! xa) i = get_slot (tensors w ! xa) i)"
  using assms
proof (induction "is" arbitrary: w)
  case Nil
  then show ?case by simp
next
  case (Cons i "is")
  let ?n = "len (mats w sa)"
  let ?j = "offset ?n steps (rng w) 0"
  have j: "0 \<le> ?j" "?j + steps \<le> int ?n"
    using offset_range[OF Cons.prems(2), of "rng w" 0] by simp_all
  have r: "randint (int ?n - steps) (rng w) = (Inr ?j, stl (rng w))"
    using randint_offset[OF Cons.prems(2), of 0 "rng w"] by simp
  have ib: "i < b" using Cons.prems by simp
  from set_slot_window[OF j(1) Cons.prems(1) j(2) Cons.prems(3,6,5) ib, of F]
  obtain x where x: "set_slot F (tensors w ! xa) i (slice2 (mats w sa) ?j (?j + steps)) = Inr x"
    "dims x = dims (tensors w ! xa)" "wf3 x" "get_slot x i = window F (mats w sa) steps ?j"
    "\<forall>i'. i' \<noteq> i \<longrightarrow> get_slot x i' = get_slot (tensors w ! xa) i'"
    by blast
  let ?w1 = "w\<lparr>rng := stl (rng w), tensors := (tensors w)[xa := x]\<rparr>"
  have step: "unlabeled_loop F sa steps xa (i # is) w = unlabeled_loop F sa steps xa is ?w1"
    by (simp add: r x(1))
  have p1: "steps < int (len (mats ?w1 sa))" "wf2 (mats ?w1 sa)" "xa < length (tensors ?w1)"
    "dims (tensors ?w1 ! xa) = (nat steps, b, ncols (mats ?w1 sa))" "wf3 (tensors ?w1 ! xa)"
    "distinct is" "\<forall>i\<in>set is. i < b"
    using Cons.prems x(2,3) by simp_all
  from Cons.IH[OF Cons.prems(1) p1] obtain w' where
    w': "unlabeled_loop F sa steps xa is ?w1 = (Inr (), w')"
      "mats w' = mats ?w1" "rng w' = sdrop (length is) (rng ?w1)"
      "length (tensors w') = length (tensors ?w1)"
      "\<forall>a. a \<noteq> xa \<longrightarrow> tensors w' ! a = tensors ?w1 ! a"
      "dims (tensors w' ! xa) = dims (tensors ?w1 ! xa)" "wf3 (tensors w' ! xa)"
      "\<forall>p<length is. get_slot (tensors w' ! xa) (is ! p) =
          window F (mats ?w1 sa) steps (offset (len (mats ?w1 sa)) steps (rng ?w1) p)"
      "\<forall>i. i \<notin> set is \<longrightarrow> get_slot (tensors w' ! xa) i = get_slot (tensors ?w1 ! xa) i"
    by blast
  have inotin: "i \<notin> set is" using Cons.prems(7) by simp
  have a: "get_slot (tensors w' ! xa) i = window F (mats w sa) steps ?j"
    using w'(9) inotin x(4) Cons.prems(4) by simp
  have b: "\<forall>p<length (i # is). get_slot (tensors w' ! xa) ((i # is) ! p) =
               window F (mats w sa) steps (offset ?n steps (rng w) p)"
  proof (intro allI impI)
    fix p assume "p < length (i # is)"
    then show "get_slot (tensors w' ! xa) ((i # is) ! p) =
               window F (mats w sa) steps (offset ?n steps (rng w) p)"
    proof (cases p)
      case 0
      then show ?thesis using a by simp
    next
      case (Suc q)
      with \<open>p < length (i # is)\<close> have "q < length is" by simp
      with w'(8) have "get_slot (tensors w' ! xa) (is ! q) =
          window F (mats w sa) steps (offset ?n steps (stl (rng w)) q)" by simp
      then show ?thesis using Suc by (simp add: offset_def)
    qed
  qed
  have c: "\<forall>i'. i' \<notin> set (i # is) \<longrightarrow> get_slot (tensors w' ! xa) i' = get_slot (tensors w ! xa) i'"
    using w'(9) x(5) Cons.prems(4) by auto
  show ?case
  proof (intro exI[of _ w'] conjI)
    show "unlabeled_loop F sa steps xa (i # is) w = (Inr (), w')"
      using step w'(1) by simp
    show "mats w' = mats w" using w'(2) by simp
    show "rng w' = sdrop (length (i # is)) (rng w)" using w'(3) by simp
    show "length (tensors w') = length (tensors w)" using w'(4) by simp
    show "\<forall>a. a \<noteq> xa \<longrightarrow> tensors w' ! a = tensors w ! a" using w'(5) by simp
    show "dims (tensors w' ! xa) = dims (tensors w ! xa)"
      using w'(6) x(2) Cons.prems(4) by simp
    show "wf3 (tensors w' ! xa)" by (rule w'(7))
    show "\<forall>p<length (i # is). get_slot (tensors w' ! xa) ((i # is) ! p) =
               window F (mats w sa) steps (offset ?n steps (rng w) p)" by (rule b)
    show "\<forall>i'. i' \<notin> set (i # is) \<longrightarrow> get_slot (tensors w' ! xa) i' = get_slot (tensors w ! xa) i'"
      by (rule c)
  qed
qed

lemma unlabeled_sample_valid:
  assumes "0 \<le> steps" "steps < int (len (mats w sa))" "0 \<le> B" "wf2 (mats w sa)"
  shows "\<exists>w'. unlabeled_sample F sa steps B w = (Inr [length (tensors w)], w') \<and>
           mats w' = mats w \<and> rng w' = sdrop (nat B) (rng w) \<and>
           length (tensors w') = Suc (length (tensors w)) \<and>
           (\<forall>a<length (tensors w). tensors w' ! a = tensors w ! a) \<and>
           dims (tensors w' ! length (tensors w)) = (nat steps, nat B, ncols (mats w sa)) \<and>
           wf3 (tensors w' ! length (tensors w)) \<and>
           (\<forall>i<nat B. get_slot (tensors w' ! length (tensors w)) i =
               window F (mats w sa) steps (offset (len (mats w sa)) steps (rng w) i))"
proof -
  let ?xa = "length (tensors w)"
  let ?z = "\<lparr>dims = (nat steps, nat B, ncols (mats w sa)),
             cells = replicate (nat steps) (replicate (nat B) (replicate (ncols (mats w sa)) (0::'b)))\<rparr>"
  let ?w1 = "w\<lparr>tensors := tensors w @ [?z]\<rparr>"
  have z: "np_zeros (steps, B, int (ncols (mats w sa))) = Inr ?z"
    using np_zeros_ok[OF assms(1,3)] .
  have p: "steps < int (len (mats ?w1 sa))" "wf2 (mats ?w1 sa)" "?xa < length (tensors ?w1)"
    "dims (tensors ?w1 ! ?xa) = (nat steps, nat B, ncols (mats ?w1 sa))" "wf3 (tensors ?w1 ! ?xa)"
    "distinct [0..<nat B]" "\<forall>i\<in>set [0..<nat B]. i < nat B"
    using assms wf3_zeros by simp_all
  from unlabeled_loop_valid[OF assms(1) p, of F] obtain w' where
    w': "unlabeled_loop F sa steps ?xa [0..<nat B] ?w1 = (Inr (), w')"
      "mats w' = mats ?w1" "rng w' = sdrop (length [0..<nat B]) (rng ?w1)"
      "length (tensors w') = length (tensors ?w1)"
      "\<forall>a. a \<noteq> ?xa \<longrightarrow> tensors w' ! a = tensors ?w1 ! a"
      "dims (tensors w' ! ?xa) = dims (tensors ?w1 ! ?xa)" "wf3 (tensors w' ! ?xa)"
      "\<forall>p<length [0..<nat B]. get_slot (tensors w' ! ?xa) ([0..<nat B] ! p) =
          window F (mats ?w1 sa) steps (offset (len (mats ?w1 sa)) steps (rng ?w1) p)"
    by blast
  have run: "unlabeled_sample F sa steps B w = (Inr [?xa], w')"
    by (simp add: unlabeled_sample_def z w'(1))
  have old: "\<forall>a<?xa. tensors w' ! a = tensors w ! a"
    using w'(5) by (simp add: nth_append)
  show ?thesis
  proof (intro exI[of _ w'] conjI)
    show "unlabeled_sample F sa steps B w = (Inr [?xa], w')" by (rule run)
    show "mats w' = mats w" using w'(2) by simp
    show "rng w' = sdrop (nat B) (rng w)" using w'(3) by simp
    show "length (tensors w') = Suc (length (tensors w))" using w'(4) by simp
    show "\<forall>a<length (tensors w). tensors w' ! a = tensors w ! a" by (rule old)
    show "dims (tensors w' ! ?xa) = (nat steps, nat B, ncols (mats w sa))" using w'(6) by simp
    show "wf3 (tensors w' ! ?xa)" by (rule w'(7))
    show "\<forall>i<nat B. get_slot (tensors w' ! ?xa) i =
               window F (mats w sa) steps (offset (len (mats w sa)) steps (rng w) i)"
      using w'(8) by simp
  qed
qed


lemma labeled_loop_valid:
  assumes "0 \<le> steps" "steps < int (len (mats w sa))" "wf2 (mats w sa)"
    and "len (mats w sa) \<le> len (mats w la)" "wf2 (mats w la)"
    and "xa < length (tensors w)" "ya < length (tensors w)" "xa \<noteq> ya"
    and "dims (tensors w ! xa) = (nat steps, b, ncols (mats w sa))" "wf3 (tensors w ! xa)"
    and "dims (tensors w ! ya) = (nat steps, b, ncols (mats w la))" "wf3 (tensors w ! ya)"
    and "distinct is" "\<forall>i\<in>set is. i < b"
  shows "\<exists>w'. labeled_loop F sa la steps xa ya is w = (Inr (), w') \<and>
           mats w' = mats w \<and> rng w' = sdrop (length is) (rng w) \<and>
           length (tensors w') = length (tensors w) \<and>
           (\<forall>a. a \<noteq> xa \<and> a \<noteq> ya \<longrightarrow> tensors w' ! a = tensors w ! a) \<and>
           dims (tensors w' ! xa) = dims (tensors w ! xa) \<and> wf3 (tensors w' ! xa) \<and>
           dims (tensors w' ! ya) = dims (tensors w ! ya) \<and> wf3 (tensors w' ! ya) \<and>
           (\<forall>p<length is.
               get_slot (tensors w' ! xa) (is ! p) =
                 window F (mats w sa) steps (offset (len (mats w sa)) steps (rng w) p) \<and>
               get_slot (tensors w' ! ya) (is ! p) =
                 window F (mats w la) steps (offset (len (mats w sa)) steps (rng w) p)) \<and>
           (\<forall>i. i \<notin> set is \<longrightarrow> get_slot (tensors w' ! xa) i = get_slot (tensors w ! xa) i \<and>
                                get_slot (tensors w' ! ya) i = get_slot (tensors w ! ya) i)"
  using assms
proof (induction "is" arbitrary: w)
  case Nil
  then show ?case by simp
next
  case (Cons i "is")
  let ?n = "len (mats w sa)"
  let ?j = "offset ?n steps (rng w) 0"
  have j: "0 \<le> ?j" "?j + steps \<le> int ?n"
    using offset_range[OF Cons.prems(2), of "rng w" 0] by simp_all
  have jl: "?j + steps \<le> int (len (mats w la))"
    using j(2) Cons.prems(4) by simp
  have r: "randint (int ?n - steps) (rng w) = (Inr ?j, stl (rng w))"
    using randint_offset[OF Cons.prems(2), of 0 "rng w"] by simp
  have ib: "i < b" using Cons.prems(14) by simp
  from set_slot_window[OF j(1) Cons.prems(1) j(2) Cons.prems(3,10,9) ib, of F]
  obtain x where x: "set_slot F (tensors w ! xa) i (slice2 (mats w sa) ?j (?j + steps)) = Inr x"
    "dims x = dims (tensors w ! xa)" "wf3 x" "get_slot x i = window F (mats w sa) steps ?j"
    "\<forall>i'. i' \<noteq> i \<longrightarrow> get_slot x i' = get_slot (tensors w ! xa) i'"
    by blast
  from set_slot_window[OF j(1) Cons.prems(1) jl Cons.prems(5,12,11) ib, of F]
  obtain y where y: "set_slot F (tensors w ! ya) i (slice2 (mats w la) ?j (?j + steps)) = Inr y"
    "dims y = dims (tensors w ! ya)" "wf3 y" "get_slot y i = window F (mats w la) steps ?j"
    "\<forall>i'. i' \<noteq> i \<longrightarrow> get_slot y i' = get_slot (tensors w ! ya) i'"
    by blast
  let ?w1 = "w\<lparr>rng := stl (rng w), tensors := (tensors w)[xa := x, ya := y]\<rparr>"
  have step: "labeled_loop F sa la steps xa ya (i # is) w = labeled_loop F sa la steps xa ya is ?w1"
    using Cons.prems(8) by (simp add: r x(1) y(1) Let_def)
  have tx: "tensors ?w1 ! xa = x" and ty: "tensors ?w1 ! ya = y"
    using Cons.prems(6,7,8) by simp_all
  have p1: "steps < int (len (mats ?w1 sa))" "wf2 (mats ?w1 sa)"
    "len (mats ?w1 sa) \<le> len (mats ?w1 la)" "wf2 (mats ?w1 la)"
    "xa < length (tensors ?w1)" "ya < length (tensors ?w1)" "xa \<noteq> ya"
    "dims (tensors ?w1 ! xa) = (nat steps, b, ncols (mats ?w1 sa))" "wf3 (tensors ?w1 ! xa)"
    "dims (tensors ?w1 ! ya) = (nat steps, b, ncols (mats ?w1 la))" "wf3 (tensors ?w1 ! ya)"
    "distinct is" "\<forall>i\<in>set is. i < b"
    unfolding tx ty using Cons.prems x(2,3) y(2,3) by simp_all
  from Cons.IH[OF Cons.prems(1) p1] obtain w' where
    w': "labeled_loop F sa la steps xa ya is ?w1 = (Inr (), w')"
      "mats w' = mats ?w1" "rng w' = sdrop (length is) (rng ?w1)"
      "length (tensors w') = length (tensors ?w1)"
      "\<forall>a. a \<noteq> xa \<and> a \<noteq> ya \<longrightarrow> tensors w' ! a = tensors ?w1 ! a"
      "dims (tensors w' ! xa) = dims (tensors ?w1 ! xa)" "wf3 (tensors w' ! xa)"
      "dims (tensors w' ! ya) = dims (tensors ?w1 ! ya)" "wf3 (tensors w' ! ya)"
      "\<forall>p<length is.
               get_slot (tensors w' ! xa) (is ! p) =
                 window F (mats ?w1 sa) steps (offset (len (mats ?w1 sa)) steps (rng ?w1) p) \<and>
               get_slot (tensors w' ! ya) (is ! p) =
                 window F (mats ?w1 la) steps (offset (len (mats ?w1 sa)) steps (rng ?w1) p)"
      "\<forall>i. i \<notin> set is \<longrightarrow> get_slot (tensors w' ! xa) i = get_slot (tensors ?w1 ! xa) i \<and>
                                get_slot (tensors w' ! ya) i = get_slot (tensors ?w1 ! ya) i"
    by blast
  have inotin: "i \<notin> set is" using Cons.prems(13) by simp
  have a: "get_slot (tensors w' ! xa) i = window F (mats w sa) steps ?j"
      "get_slot (tensors w' ! ya) i = window F (mats w la) steps ?j"
    using w'(11) inotin x(4) y(4) unfolding tx ty by simp_all
  have b: "\<forall>p<length (i # is).
               get_slot (tensors w' ! xa) ((i # is) ! p) =
                 window F (mats w sa) steps (offset ?n steps (rng w) p) \<and>
               get_slot (tensors w' ! ya) ((i # is) ! p) =
                 window F (mats w la) steps (offset ?n steps (rng w) p)"
  proof (intro allI impI)
    fix p assume pl: "p < length (i # is)"
    show "get_slot (tensors w' ! xa) ((i # is) ! p) =
                 window F (mats w sa) steps (offset ?n steps (rng w) p) \<and>
               get_slot (tensors w' ! ya) ((i # is) ! p) =
                 window F (mats w la) steps (offset ?n steps (rng w) p)"
    proof (cases p)
      case 0
      then show ?thesis using a by simp
    next
      case (Suc q)
      with pl have "q < length is" by simp
      with w'(10) have "get_slot (tensors w' ! xa) (is ! q) =
          window F (mats w sa) steps (offset ?n steps (stl (rng w)) q) \<and>
          get_slot (tensors w' ! ya) (is ! q) =
          window F (mats w la) steps (offset ?n steps (stl (rng w)) q)" by simp
      then show ?thesis using Suc by (simp add: offset_def)
    qed
  qed
  have c: "\<forall>i'. i' \<notin> set (i # is) \<longrightarrow>
             get_slot (tensors w' ! xa) i' = get_slot (tensors w ! xa) i' \<and>
             get_slot (tensors w' ! ya) i' = get_slot (tensors w ! ya) i'"
  proof (intro allI impI)
    fix i' assume n: "i' \<notin> set (i # is)"
    then have "i' \<notin> set is" "i' \<noteq> i" by simp_all
    then show "get_slot (tensors w' ! xa) i' = get_slot (tensors w ! xa) i' \<and>
             get_slot (tensors w' ! ya) i' = get_slot (tensors w ! ya) i'"
      using w'(11) x(5) y(5) unfolding tx ty by simp
  qed
  show ?case
  proof (intro exI[of _ w'] conjI)
    show "labeled_loop F sa la steps xa ya (i # is) w = (Inr (), w')"
      using step w'(1) by simp
    show "mats w' = mats w" using w'(2) by simp
    show "rng w' = sdrop (length (i # is)) (rng w)" using w'(3) by simp
    show "length (tensors w') = length (tensors w)" using w'(4) by simp
    show "\<forall>a. a \<noteq> xa \<and> a \<noteq> ya \<longrightarrow> tensors w' ! a = tensors w ! a" using w'(5) by simp
    show "dims (tensors w' ! xa) = dims (tensors w ! xa)"
      using w'(6) x(2) unfolding tx by simp
    show "wf3 (tensors w' ! xa)" by (rule w'(7))
    show "dims (tensors w' ! ya) = dims (tensors w ! ya)"
      using w'(8) y(2) unfolding ty by simp
    show "wf3 (tensors w' ! ya)" by (rule w'(9))
    show "\<forall>p<length (i # is).
               get_slot (tensors w' ! xa) ((i # is) ! p) =
                 window F (mats w sa) steps (offset ?n steps (rng w) p) \<and>
               get_slot (tensors w' ! ya) ((i # is) ! p) =
                 window F (mats w la) steps (offset ?n steps (rng w) p)" by (rule b)
    show "\<forall>i'. i' \<notin> set (i # is) \<longrightarrow>
             get_slot (tensors w' ! xa) i' = get_slot (tensors w ! xa) i' \<and>
             get_slot (tensors w' ! ya) i' = get_slot (tensors w ! ya) i'" by (rule c)
  qed
qed


lemma labeled_sample_valid:
  assumes "0 \<le> steps" "steps < int (len (mats w sa))" "0 \<le> B" "wf2 (mats w sa)"
    and "len (mats w sa) \<le> len (mats w la)" "wf2 (mats w la)"
  shows "\<exists>w'. labeled_sample F sa la steps B w =
             (Inr [length (tensors w), Suc (length (tensors w))], w') \<and>
           mats w' = mats w \<and> rng w' = sdrop (nat B) (rng w) \<and>
           length (tensors w') = Suc (Suc (length (tensors w))) \<and>
           (\<forall>a<length (tensors w). tensors w' ! a = tensors w ! a) \<and>
           dims (tensors w' ! length (tensors w)) = (nat steps, nat B, ncols (mats w sa)) \<and>
           wf3 (tensors w' ! length (tensors w)) \<and>
           dims (tensors w' ! Suc (length (tensors w))) = (nat steps, nat B, ncols (mats w la)) \<and>
           wf3 (tensors w' ! Suc (length (tensors w))) \<and>
           (\<forall>i<nat B.
              get_slot (tensors w' ! length (tensors w)) i =
                window F (mats w sa) steps (offset (len (mats w sa)) steps (rng w) i) \<and>
              get_slot (tensors w' ! Suc (length (tensors w))) i =
                window F (mats w la) steps (offset (len (mats w sa)) steps (rng w) i))"
proof -
  let ?xa = "length (tensors w)"
  let ?ya = "Suc (length (tensors w))"
  let ?zx = "\<lparr>dims = (nat steps, nat B, ncols (mats w sa)),
             cells = replicate (nat steps) (replicate (nat B) (replicate (ncols (mats w sa)) (0::'b)))\<rparr>"
  let ?zy = "\<lparr>dims = (nat steps, nat B, ncols (mats w la)),
             cells = replicate (nat steps) (replicate (nat B) (replicate (ncols (mats w la)) (0::'b)))\<rparr>"
  let ?w2 = "w\<lparr>tensors := tensors w @ [?zx, ?zy]\<rparr>"
  have zx: "np_zeros (steps, B, int (ncols (mats w sa))) = Inr ?zx"
    using np_zeros_ok[OF assms(1,3)] .
  have zy: "np_zeros (steps, B, int (ncols (mats w la))) = Inr ?zy"
    using np_zeros_ok[OF assms(1,3)] .
  have tx: "tensors ?w2 ! ?xa = ?zx" and ty: "tensors ?w2 ! ?ya = ?zy"
    by (simp_all add: nth_append)
  have p: "steps < int (len (mats ?w2 sa))" "wf2 (mats ?w2 sa)"
    "len (mats ?w2 sa) \<le> len (mats ?w2 la)" "wf2 (mats ?w2 la)"
    "?xa < length (tensors ?w2)" "?ya < length (tensors ?w2)" "?xa \<noteq> ?ya"
    "dims (tensors ?w2 ! ?xa) = (nat steps, nat B, ncols (mats ?w2 sa))" "wf3 (tensors ?w2 ! ?xa)"
    "dims (tensors ?w2 ! ?ya) = (nat steps, nat B, ncols (mats ?w2 la))" "wf3 (tensors ?w2 ! ?ya)"
    "distinct [0..<nat B]" "\<forall>i\<in>set [0..<nat B]. i < nat B"
    unfolding tx ty using assms wf3_zeros by simp_all
  from labeled_loop_valid[OF assms(1) p, of F] obtain w' where
    w': "labeled_loop F sa la steps ?xa ?ya [0..<nat B] ?w2 = (Inr (), w')"
      "mats w' = mats ?w2" "rng w' = sdrop (length [0..<nat B]) (rng ?w2)"
      "length (tensors w') = length (tensors ?w2)"
      "\<forall>a. a \<noteq> ?xa \<and> a \<noteq> ?ya \<longrightarrow> tensors w' ! a = tensors ?w2 ! a"
      "dims (tensors w' ! ?xa) = dims (tensors ?w2 ! ?xa)" "wf3 (tensors w' ! ?xa)"
      "dims (tensors w' ! ?ya) = dims (tensors ?w2 ! ?ya)" "wf3 (tensors w' ! ?ya)"
      "\<forall>p<length [0..<nat B].
               get_slot (tensors w' ! ?xa) ([0..<nat B] ! p) =
                 window F (mats ?w2 sa) steps (offset (len (mats ?w2 sa)) steps (rng ?w2) p) \<and>
               get_slot (tensors w' ! ?ya) ([0..<nat B] ! p) =
                 window F (mats ?w2 la) steps (offset (len (mats ?w2 sa)) steps (rng ?w2) p)"
    by blast
  have run: "labeled_sample F sa la steps B w = (Inr [?xa, ?ya], w')"
    using w'(1) by (simp add: labeled_sample_def zx zy Let_def)
  have old: "\<forall>a<?xa. tensors w' ! a = tensors w ! a"
    using w'(5) by (simp add: nth_append)
  show ?thesis
  proof (intro exI[of _ w'] conjI)
    show "labeled_sample F sa la steps B w = (Inr [?xa, ?ya], w')" by (rule run)
    show "mats w' = mats w" using w'(2) by simp
    show "rng w' = sdrop (nat B) (rng w)" using w'(3) by simp
    show "length (tensors w') = Suc (Suc (length (tensors w)))" using w'(4) by simp
    show "\<forall>a<length (tensors w). tensors w' ! a = tensors w ! a" by (rule old)
    show "dims (tensors w' ! ?xa) = (nat steps, nat B, ncols (mats w sa))"
      using w'(6) unfolding tx by simp
    show "wf3 (tensors w' ! ?xa)" by (rule w'(7))
    show "dims (tensors w' ! ?ya) = (nat steps, nat B, ncols (mats w la))"
      using w'(8) unfolding ty by simp
    show "wf3 (tensors w' ! ?ya)" by (rule w'(9))
    show "\<forall>i<nat B.
              get_slot (tensors w' ! ?xa) i =
                window F (mats w sa) steps (offset (len (mats w sa)) steps (rng w) i) \<and>
              get_slot (tensors w' ! ?ya) i =
                window F (mats w la) steps (offset (len (mats w sa)) steps (rng w) i)"
      using w'(10) by simp
  qed
qed


subsection \<open>The contents and the shape of a batch\<close>

text \<open>
  C1. For a dataset of \<open>N\<close> frames and a window length \<open>steps < N\<close>, a call of the generator
  returned by \<open>batches\<close> succeeds, and every slot \<open>i\<close> of the data array it returns holds,
  along the time axis, the contiguous window \<open>samples[j : j+steps]\<close> for an offset \<open>j\<close> with
  \<open>0 \<le> j < N - steps\<close>: a slice of exactly \<open>steps\<close> rows of the dataset (its entries
  converted to the dtype of the batch). This holds with and without labels.
\<close>

theorem batches_slot_is_window:
  assumes "0 \<le> steps" "steps < int (len (mats w samples))" "0 \<le> batch_size"
    and "wf2 (mats w samples)"
    and "\<forall>l. labels = Some l \<longrightarrow> len (mats w samples) \<le> len (mats w l) \<and> wf2 (mats w l)"
    and "batches FLOAT samples labels steps batch_size w = (r, w')"
  shows "\<exists>xs rest. r = Inr (xs # rest) \<and>
           (\<forall>i<nat batch_size. \<exists>j. 0 \<le> j \<and> j < int (len (mats w samples)) - steps \<and>
              len (slice2 (mats w samples) j (j + steps)) = nat steps \<and>
              get_slot (tensors w' ! xs) i =
                map (map FLOAT) (rows (slice2 (mats w samples) j (j + steps))))"
proof -
  let ?n = "len (mats w samples)"
  let ?xa = "length (tensors w)"
  have slots: "\<exists>j. 0 \<le> j \<and> j < int ?n - steps \<and>
              len (slice2 (mats w samples) j (j + steps)) = nat steps \<and>
              window FLOAT (mats w samples) steps (offset ?n steps (rng w) i) =
                map (map FLOAT) (rows (slice2 (mats w samples) j (j + steps)))" for i
  proof -
    let ?j = "offset ?n steps (rng w) i"
    have j: "0 \<le> ?j" "?j < int ?n - steps" "?j + steps \<le> int ?n"
      using offset_range[OF assms(2), of "rng w" i] by simp_all
    have "len (slice2 (mats w samples) ?j (?j + steps)) = nat steps"
      and "window FLOAT (mats w samples) steps ?j =
            map (map FLOAT) (rows (slice2 (mats w samples) ?j (?j + steps)))"
      using slice2_window[OF j(1) assms(1) j(3)] by (simp_all only: window_def)
    with j(1,2) show ?thesis by blast
  qed
  show ?thesis
  proof (cases labels)
    case None
    from unlabeled_sample_valid[OF assms(1,2,3,4), of FLOAT] obtain v where
      v: "unlabeled_sample FLOAT samples steps batch_size w = (Inr [?xa], v)"
        "\<forall>i<nat batch_size. get_slot (tensors v ! ?xa) i =
           window FLOAT (mats w samples) steps (offset ?n steps (rng w) i)"
      by blast
    have "r = Inr [?xa]" "w' = v"
      using assms(6) v(1) None by (simp_all add: batches_def)
    then show ?thesis using v(2) slots by simp
  next
    case (Some l)
    have l: "len (mats w samples) \<le> len (mats w l)" "wf2 (mats w l)"
      using assms(5) Some by simp_all
    from labeled_sample_valid[OF assms(1,2,3,4) l, of FLOAT] obtain v where
      v: "labeled_sample FLOAT samples l steps batch_size w = (Inr [?xa, Suc ?xa], v)"
        "\<forall>i<nat batch_size. get_slot (tensors v ! ?xa) i =
           window FLOAT (mats w samples) steps (offset ?n steps (rng w) i) \<and>
         get_slot (tensors v ! Suc ?xa) i =
           window FLOAT (mats w l) steps (offset ?n steps (rng w) i)"
      by blast
    have "r = Inr [?xa, Suc ?xa]" "w' = v"
      using assms(6) v(1) Some by (simp_all add: batches_def)
    then show ?thesis using v(2) slots by simp
  qed
qed

theorem batches_slot_is_window_witness:
  "(0::int) \<le> 2 \<and> 2 < int (len (mats demo_world 0)) \<and> wf2 (mats demo_world 0) \<and>
   (\<exists>xs rest. fst (batches real_of_int 0 None 2 3 demo_world) = Inr (xs # rest) \<and>
      (\<forall>i<nat 3. \<exists>j. 0 \<le> j \<and> j < int (len (mats demo_world 0)) - 2 \<and>
         len (slice2 (mats demo_world 0) j (j + 2)) = nat 2 \<and>
         get_slot (tensors (snd (batches real_of_int 0 None 2 3 demo_world)) ! xs) i =
           map (map real_of_int) (rows (slice2 (mats demo_world 0) j (j + 2)))))"
proof -
  have h: "(0::int) \<le> 2" "2 < int (len (mats demo_world 0))" "(0::int) \<le> 3"
    "wf2 (mats demo_world 0)"
    "\<forall>l. (None::nat option) = Some l \<longrightarrow>
       len (mats demo_world 0) \<le> len (mats demo_world l) \<and> wf2 (mats demo_world l)"
    by (simp_all add: demo_world_def len_def wf2_def)
  have c: "batches real_of_int 0 None 2 3 demo_world =
      (fst (batches real_of_int 0 None 2 3 demo_world),
       snd (batches real_of_int 0 None 2 3 demo_world))"
    by simp
  show ?thesis
    using h(1,2,4) batches_slot_is_window[OF h c] by blast
qed

text \<open>
  C2. For valid inputs (\<open>steps < N\<close>, \<open>steps\<close> and \<open>batch_size\<close> not negative) a call of the
  generator returns a data array of shape exactly \<open>(steps, batch_size, D)\<close> and, when labels
  were supplied, also a label array of shape exactly \<open>(steps, batch_size, L)\<close>, whatever the
  length \<open>N\<close> of the dataset; the entries of both arrays fill exactly that shape.
\<close>

theorem batches_shape:
  assumes "0 \<le> steps" "steps < int (len (mats w samples))" "0 \<le> batch_size"
    and "wf2 (mats w samples)"
  shows "(\<exists>xs w'. batches FLOAT samples None steps batch_size w = (Inr [xs], w') \<and>
            dims (tensors w' ! xs) = (nat steps, nat batch_size, ncols (mats w samples)) \<and>
            wf3 (tensors w' ! xs)) \<and>
         (len (mats w samples) \<le> len (mats w labels) \<and> wf2 (mats w labels) \<longrightarrow>
           (\<exists>xs ys w'. batches FLOAT samples (Some labels) steps batch_size w = (Inr [xs, ys], w') \<and>
              dims (tensors w' ! xs) = (nat steps, nat batch_size, ncols (mats w samples)) \<and>
              wf3 (tensors w' ! xs) \<and>
              dims (tensors w' ! ys) = (nat steps, nat batch_size, ncols (mats w labels)) \<and>
              wf3 (tensors w' ! ys)))"
proof (intro conjI impI)
  from unlabeled_sample_valid[OF assms, of FLOAT]
  show "\<exists>xs w'. batches FLOAT samples None steps batch_size w = (Inr [xs], w') \<and>
            dims (tensors w' ! xs) = (nat steps, nat batch_size, ncols (mats w samples)) \<and>
            wf3 (tensors w' ! xs)"
    unfolding batches_def by (simp only: option.case) blast
next
  assume "len (mats w samples) \<le> len (mats w labels) \<and> wf2 (mats w labels)"
  then have l: "len (mats w samples) \<le> len (mats w labels)" "wf2 (mats w labels)"
    by simp_all
  from labeled_sample_valid[OF assms l, of FLOAT]
  show "\<exists>xs ys w'. batches FLOAT samples (Some labels) steps batch_size w = (Inr [xs, ys], w') \<and>
              dims (tensors w' ! xs) = (nat steps, nat batch_size, ncols (mats w samples)) \<and>
              wf3 (tensors w' ! xs) \<and>
              dims (tensors w' ! ys) = (nat steps, nat batch_size, ncols (mats w labels)) \<and>
              wf3 (tensors w' ! ys)"
    unfolding batches_def by (simp only: option.case) blast
qed

theorem batches_shape_witness:
  "(0::int) \<le> 2 \<and> 2 < int (len (mats demo_world 0)) \<and> wf2 (mats demo_world 0) \<and>
   len (mats demo_world 0) \<le> len (mats demo_world 1) \<and> wf2 (mats demo_world 1) \<and>
   (\<exists>xs ys w'. batches real_of_int 0 (Some 1) 2 3 demo_world = (Inr [xs, ys], w') \<and>
      dims (tensors w' ! xs) = (2, 3, 2) \<and> wf3 (tensors w' ! xs) \<and>
      dims (tensors w' ! ys) = (2, 3, 1) \<and> wf3 (tensors w' ! ys))"
proof -
  have h: "(0::int) \<le> 2" "2 < int (len (mats demo_world 0))" "(0::int) \<le> 3"
    "wf2 (mats demo_world 0)"
    by (simp_all add: demo_world_def len_def wf2_def)
  have l: "len (mats demo_world 0) \<le> len (mats demo_world 1) \<and> wf2 (mats demo_world 1)"
    by (simp add: demo_world_def len_def wf2_def)
  have n: "ncols (mats demo_world 0) = 2" "ncols (mats demo_world 1) = 1"
    by (simp_all add: demo_world_def)
  from batches_shape[OF h, of real_of_int 1] l
  have "\<exists>xs ys w'. batches real_of_int 0 (Some 1) 2 3 demo_world = (Inr [xs, ys], w') \<and>
      dims (tensors w' ! xs) = (nat 2, nat 3, ncols (mats demo_world 0)) \<and> wf3 (tensors w' ! xs) \<and>
      dims (tensors w' ! ys) = (nat 2, nat 3, ncols (mats demo_world 1)) \<and> wf3 (tensors w' ! ys)"
    by blast
  then show ?thesis using h(1,2,4) l unfolding n by simp
qed

subsection \<open>The offsets of a call\<close>

lemma offset_shift:
  assumes "length cs = k" "\<forall>c\<in>set cs. c < nat (int n - steps)"
  shows "map (offset n steps (cs @- g)) [0..<k] = map int cs"
proof (rule nth_equalityI)
  show "length (map (offset n steps (cs @- g)) [0..<k]) = length (map int cs)"
    using assms(1) by simp
next
  fix i assume "i < length (map (offset n steps (cs @- g)) [0..<k])"
  then have i: "i < length cs" using assms(1) by simp
  then have "cs ! i < nat (int n - steps)" using assms(2) by simp
  then show "map (offset n steps (cs @- g)) [0..<k] ! i = map int cs ! i"
    using i assms(1) by (simp add: offset_def)
qed

lemma offsets_enumerate:
  "map (\<lambda>cs. map (offset n steps (cs @- g)) [0..<k]) (List.n_lists k [0..<nat (int n - steps)]) =
   map (map int) (List.n_lists k [0..<nat (int n - steps)])"
proof (rule map_cong[OF refl])
  fix cs assume "cs \<in> set (List.n_lists k [0..<nat (int n - steps)])"
  then have "length cs = k" "\<forall>c\<in>set cs. c < nat (int n - steps)"
    by (auto simp: set_n_lists)
  then show "map (offset n steps (cs @- g)) [0..<k] = map int cs"
    by (rule offset_shift)
qed

text \<open>
  C3. For a dataset of \<open>N\<close> frames and \<open>steps < N\<close>, a call makes exactly \<open>batch_size\<close>
  draws, one for each slot: the offset of slot \<open>i\<close> is the value of the \<open>i\<close>-th call of
  \<^verbatim>\<open>randint(N - steps)\<close>, it satisfies \<open>0 \<le> j < N - steps\<close>, and the slot holds the window at
  that offset. Each offset is the reduction of its own cell of the generator's tape and of
  nothing else; so when the cells of one call range over the equally likely vectors of
  \<open>batch_size\<close> values in \<open>[0, N - steps)\<close>, which is what numpy's uniform \<^verbatim>\<open>randint\<close>
  provides, the vector of offsets ranges over the same vectors, each exactly once: every
  offset is uniform on the range and the offsets of one call are independent.
\<close>

theorem offsets_in_range:
  assumes "0 \<le> steps" "steps < int (len (mats w samples))" "0 \<le> batch_size"
    and "wf2 (mats w samples)"
  shows "(\<exists>xs w'. batches FLOAT samples None steps batch_size w = (Inr [xs], w') \<and>
           rng w' = sdrop (nat batch_size) (rng w) \<and>
           (\<forall>i<nat batch_size.
              randint (int (len (mats w samples)) - steps) (sdrop i (rng w)) =
                (Inr (offset (len (mats w samples)) steps (rng w) i), sdrop (Suc i) (rng w)) \<and>
              0 \<le> offset (len (mats w samples)) steps (rng w) i \<and>
              offset (len (mats w samples)) steps (rng w) i < int (len (mats w samples)) - steps \<and>
              get_slot (tensors w' ! xs) i =
                window FLOAT (mats w samples) steps (offset (len (mats w samples)) steps (rng w) i))) \<and>
         map (\<lambda>cs. map (offset (len (mats w samples)) steps (cs @- g)) [0..<nat batch_size])
             (List.n_lists (nat batch_size) [0..<nat (int (len (mats w samples)) - steps)]) =
           map (map int) (List.n_lists (nat batch_size) [0..<nat (int (len (mats w samples)) - steps)])"
proof (intro conjI)
  let ?n = "len (mats w samples)"
  let ?xa = "length (tensors w)"
  from unlabeled_sample_valid[OF assms, of FLOAT] obtain v where
    v: "unlabeled_sample FLOAT samples steps batch_size w = (Inr [?xa], v)"
       "rng v = sdrop (nat batch_size) (rng w)"
      "\<forall>i<nat batch_size. get_slot (tensors v ! ?xa) i =
         window FLOAT (mats w samples) steps (offset ?n steps (rng w) i)"
    by blast
  show "\<exists>xs w'. batches FLOAT samples None steps batch_size w = (Inr [xs], w') \<and>
           rng w' = sdrop (nat batch_size) (rng w) \<and>
           (\<forall>i<nat batch_size.
              randint (int ?n - steps) (sdrop i (rng w)) =
                (Inr (offset ?n steps (rng w) i), sdrop (Suc i) (rng w)) \<and>
              0 \<le> offset ?n steps (rng w) i \<and>
              offset ?n steps (rng w) i < int ?n - steps \<and>
              get_slot (tensors w' ! xs) i =
                window FLOAT (mats w samples) steps (offset ?n steps (rng w) i))"
  proof (intro exI[of _ ?xa] exI[of _ v] conjI allI impI)
    show "batches FLOAT samples None steps batch_size w = (Inr [?xa], v)"
      using v(1) by (simp add: batches_def)
    show "rng v = sdrop (nat batch_size) (rng w)" by (rule v(2))
  next
    fix i assume "i < nat batch_size"
    then show "get_slot (tensors v ! ?xa) i =
         window FLOAT (mats w samples) steps (offset ?n steps (rng w) i)"
      using v(3) by simp
  next
    fix i
    show "randint (int ?n - steps) (sdrop i (rng w)) =
                (Inr (offset ?n steps (rng w) i), sdrop (Suc i) (rng w))"
      by (rule randint_offset[OF assms(2)])
    show "0 \<le> offset ?n steps (rng w) i" "offset ?n steps (rng w) i < int ?n - steps"
      using offset_range[OF assms(2), of "rng w" i] by simp_all
  qed
next
  show "map (\<lambda>cs. map (offset (len (mats w samples)) steps (cs @- g)) [0..<nat batch_size])
             (List.n_lists (nat batch_size) [0..<nat (int (len (mats w samples)) - steps)]) =
           map (map int) (List.n_lists (nat batch_size) [0..<nat (int (len (mats w samples)) - steps)])"
    by (rule offsets_enumerate)
qed


theorem offsets_in_range_witness:
  "(0::int) \<le> 2 \<and> 2 < int (len (mats demo_world 0)) \<and> wf2 (mats demo_world 0) \<and>
   (\<exists>xs w'. batches real_of_int 0 None 2 3 demo_world = (Inr [xs], w') \<and>
      (\<forall>i<nat 3. 0 \<le> offset (len (mats demo_world 0)) 2 (rng demo_world) i \<and>
                offset (len (mats demo_world 0)) 2 (rng demo_world) i
                  < int (len (mats demo_world 0)) - 2))"
proof -
  have h: "(0::int) \<le> 2" "2 < int (len (mats demo_world 0))" "(0::int) \<le> 3"
    "wf2 (mats demo_world 0)"
    by (simp_all add: demo_world_def len_def wf2_def)
  show ?thesis
    using h(1,2,4) offsets_in_range[OF h, of real_of_int] by blast
qed

subsection \<open>Labels\<close>

lemma window_slice2:
  assumes "0 \<le> j" "0 \<le> steps" "j + steps \<le> int (len a)"
  shows "window F a steps j = map (map F) (rows (slice2 a j (j + steps)))"
  using slice2_window(1)[OF assms] by (simp only: window_def)

text \<open>
  C4. When labels are supplied (a series at least as long as the samples, as frame-aligned
  labels are), the call returns the two arrays \<open>[data, labels]\<close>, and for every slot \<open>i\<close> the
  label array holds \<open>labels[j:j+steps]\<close> and the data array \<open>samples[j:j+steps]\<close> for one and
  the same offset \<open>j\<close>, the one drawn for the slot. Without labels the call returns the one
  array \<open>[data]\<close>.
\<close>

theorem labeled_windows_aligned:
  assumes "0 \<le> steps" "steps < int (len (mats w samples))" "0 \<le> batch_size"
    and "wf2 (mats w samples)"
    and "len (mats w samples) \<le> len (mats w labels)" "wf2 (mats w labels)"
  shows "(\<exists>xs ys w'. batches FLOAT samples (Some labels) steps batch_size w = (Inr [xs, ys], w') \<and>
           (\<forall>i<nat batch_size. \<exists>j.
              j = offset (len (mats w samples)) steps (rng w) i \<and>
              0 \<le> j \<and> j < int (len (mats w samples)) - steps \<and>
              get_slot (tensors w' ! xs) i =
                map (map FLOAT) (rows (slice2 (mats w samples) j (j + steps))) \<and>
              get_slot (tensors w' ! ys) i =
                map (map FLOAT) (rows (slice2 (mats w labels) j (j + steps))) \<and>
              len (slice2 (mats w samples) j (j + steps)) = nat steps \<and>
              len (slice2 (mats w labels) j (j + steps)) = nat steps)) \<and>
         (\<exists>xs w'. batches FLOAT samples None steps batch_size w = (Inr [xs], w'))"
proof (intro conjI)
  let ?n = "len (mats w samples)"
  let ?xa = "length (tensors w)"
  from labeled_sample_valid[OF assms, of FLOAT] obtain v where
    v: "labeled_sample FLOAT samples labels steps batch_size w = (Inr [?xa, Suc ?xa], v)"
      "\<forall>i<nat batch_size. get_slot (tensors v ! ?xa) i =
         window FLOAT (mats w samples) steps (offset ?n steps (rng w) i) \<and>
       get_slot (tensors v ! Suc ?xa) i =
         window FLOAT (mats w labels) steps (offset ?n steps (rng w) i)"
    by blast
  show "\<exists>xs ys w'. batches FLOAT samples (Some labels) steps batch_size w = (Inr [xs, ys], w') \<and>
           (\<forall>i<nat batch_size. \<exists>j.
              j = offset ?n steps (rng w) i \<and>
              0 \<le> j \<and> j < int ?n - steps \<and>
              get_slot (tensors w' ! xs) i =
                map (map FLOAT) (rows (slice2 (mats w samples) j (j + steps))) \<and>
              get_slot (tensors w' ! ys) i =
                map (map FLOAT) (rows (slice2 (mats w labels) j (j + steps))) \<and>
              len (slice2 (mats w samples) j (j + steps)) = nat steps \<and>
              len (slice2 (mats w labels) j (j + steps)) = nat steps)"
  proof (rule exI[of _ ?xa], rule exI[of _ "Suc ?xa"], rule exI[of _ v], intro conjI allI impI)
    show "batches FLOAT samples (Some labels) steps batch_size w = (Inr [?xa, Suc ?xa], v)"
      using v(1) by (simp add: batches_def)
  next
    fix i assume i: "i < nat batch_size"
    let ?j = "offset ?n steps (rng w) i"
    have j: "0 \<le> ?j" "?j < int ?n - steps" "?j + steps \<le> int ?n"
      using offset_range[OF assms(2), of "rng w" i] by simp_all
    have jl: "?j + steps \<le> int (len (mats w labels))"
      using j(3) assms(5) by simp
    show "\<exists>j. j = ?j \<and> 0 \<le> j \<and> j < int ?n - steps \<and>
              get_slot (tensors v ! ?xa) i =
                map (map FLOAT) (rows (slice2 (mats w samples) j (j + steps))) \<and>
              get_slot (tensors v ! Suc ?xa) i =
                map (map FLOAT) (rows (slice2 (mats w labels) j (j + steps))) \<and>
              len (slice2 (mats w samples) j (j + steps)) = nat steps \<and>
              len (slice2 (mats w labels) j (j + steps)) = nat steps"
    proof (intro exI[of _ ?j] conjI)
      show "?j = ?j" by (rule refl)
      show "0 \<le> ?j" by (rule j(1))
      show "?j < int ?n - steps" by (rule j(2))
      show "get_slot (tensors v ! ?xa) i =
                map (map FLOAT) (rows (slice2 (mats w samples) ?j (?j + steps)))"
        using v(2) i window_slice2[OF j(1) assms(1) j(3), of FLOAT] by simp
      show "get_slot (tensors v ! Suc ?xa) i =
                map (map FLOAT) (rows (slice2 (mats w labels) ?j (?j + steps)))"
        using v(2) i window_slice2[OF j(1) assms(1) jl, of FLOAT] by simp
      show "len (slice2 (mats w samples) ?j (?j + steps)) = nat steps"
        by (rule slice2_window(2)[OF j(1) assms(1) j(3)])
      show "len (slice2 (mats w labels) ?j (?j + steps)) = nat steps"
        by (rule slice2_window(2)[OF j(1) assms(1) jl])
    qed
  qed
next
  from unlabeled_sample_valid[OF assms(1,2,3,4), of FLOAT]
  show "\<exists>xs w'. batches FLOAT samples None steps batch_size w = (Inr [xs], w')"
    unfolding batches_def by (simp only: option.case) blast
qed

theorem labeled_windows_aligned_witness:
  "(0::int) \<le> 2 \<and> 2 < int (len (mats demo_world 0)) \<and> wf2 (mats demo_world 0) \<and>
   len (mats demo_world 0) \<le> len (mats demo_world 1) \<and> wf2 (mats demo_world 1) \<and>
   (\<exists>xs ys w'. batches real_of_int 0 (Some 1) 2 3 demo_world = (Inr [xs, ys], w') \<and>
      (\<forall>i<nat 3. \<exists>j. 0 \<le> j \<and> j < int (len (mats demo_world 0)) - 2 \<and>
         get_slot (tensors w' ! xs) i =
           map (map real_of_int) (rows (slice2 (mats demo_world 0) j (j + 2))) \<and>
         get_slot (tensors w' ! ys) i =
           map (map real_of_int) (rows (slice2 (mats demo_world 1) j (j + 2)))))"
proof -
  have h: "(0::int) \<le> 2" "2 < int (len (mats demo_world 0))" "(0::int) \<le> 3"
    "wf2 (mats demo_world 0)"
    "len (mats demo_world 0) \<le> len (mats demo_world 1)" "wf2 (mats demo_world 1)"
    by (simp_all add: demo_world_def len_def wf2_def)
  show ?thesis
    using h(1,2,4,5,6) labeled_windows_aligned[OF h, of real_of_int] by blast
qed


subsection \<open>Invalid windows\<close>

lemma unlabeled_loop_empty_range:
  "int (len (mats w sa)) \<le> steps \<Longrightarrow>
   unlabeled_loop F sa steps xa (i # is) w = (Inl ValueError, w)"
  by (simp add: randint_def)

lemma labeled_loop_empty_range:
  "int (len (mats w sa)) \<le> steps \<Longrightarrow>
   labeled_loop F sa la steps xa ya (i # is) w = (Inl ValueError, w)"
  by (simp add: randint_def)

lemma batches_negative:
  assumes "steps < 0 \<or> batch_size < 0"
  shows "batches F sa labels steps batch_size w = (Inl ValueError, w)"
proof (cases labels)
  case None
  then show ?thesis
    by (simp add: batches_def unlabeled_sample_def np_zeros_neg[OF assms])
next
  case (Some l)
  then show ?thesis
    by (simp add: batches_def labeled_sample_def np_zeros_neg[OF assms])
qed

lemma batches_empty_range:
  assumes "int (len (mats w sa)) \<le> steps" "1 \<le> batch_size"
  shows "fst (batches F sa labels steps batch_size w) = Inl ValueError"
proof -
  have s: "0 \<le> steps" using assms(1) by simp
  have b: "0 \<le> batch_size" using assms(2) by simp
  have r: "[0..<nat batch_size] = 0 # [1..<nat batch_size]"
    using assms(2) by (simp add: upt_conv_Cons)
  show ?thesis
  proof (cases labels)
    case None
    then show ?thesis
      using assms(1)
      by (simp add: batches_def unlabeled_sample_def np_zeros_ok[OF s b] r
          unlabeled_loop_empty_range Let_def del: unlabeled_loop.simps)
  next
    case (Some l)
    then show ?thesis
      using assms(1)
      by (simp add: batches_def labeled_sample_def np_zeros_ok[OF s b] r
          labeled_loop_empty_range Let_def del: labeled_loop.simps)
  qed
qed

lemma batches_empty_batch:
  assumes "0 \<le> steps"
  shows "fst (batches F sa None steps 0 w) = Inr [length (tensors w)]"
  by (simp add: batches_def unlabeled_sample_def Let_def np_zeros_ok[OF assms order_refl])


subsection \<open>The errors of the labeled sampler\<close>

lemma set_slot_error_kind:
  "set_slot F t i v = Inl e \<Longrightarrow> i < fst (snd (dims t)) \<Longrightarrow> e = ValueError"
  by (auto simp: set_slot_def Let_def split: prod.splits if_splits)

lemma randint_error_kind: "randint low g = (Inl e, g') \<Longrightarrow> e = ValueError"
  by (auto simp: randint_def split: if_splits)

lemma labeled_loop_error_kind:
  assumes "\<forall>i\<in>set is. i < b" "xa < length (tensors w)" "ya < length (tensors w)" "xa \<noteq> ya"
    and "fst (snd (dims (tensors w ! xa))) = b" "fst (snd (dims (tensors w ! ya))) = b"
    and "labeled_loop F sa la steps xa ya is w = (Inl e, w')"
  shows "e = ValueError"
  using assms
proof (induction "is" arbitrary: w)
  case Nil
  then show ?case by simp
next
  case (Cons i "is")
  have ib: "i < b" using Cons.prems(1) by simp
  obtain r g where rg: "randint (int (len (mats w sa)) - steps) (rng w) = (r, g)"
    by (cases "randint (int (len (mats w sa)) - steps) (rng w)")
  show ?case
  proof (cases r)
    case (Inl e1)
    then have "e = e1" using Cons.prems(7) rg by simp
    then show ?thesis using randint_error_kind rg Inl by blast
  next
    case (Inr j)
    show ?thesis
    proof (cases "set_slot F (tensors w ! xa) i (slice2 (mats w sa) j (j + steps))")
      case (Inl e1)
      then have "e = e1" using Cons.prems(7) rg Inr by simp
      then show ?thesis using set_slot_error_kind[OF Inl] ib Cons.prems(5) by simp
    next
      case x: (Inr x)
      let ?w1 = "w\<lparr>rng := g, tensors := (tensors w)[xa := x]\<rparr>"
      have ty: "tensors ?w1 ! ya = tensors w ! ya"
        using Cons.prems(4) by simp
      show ?thesis
      proof (cases "set_slot F (tensors w ! ya) i (slice2 (mats w la) j (j + steps))")
        case (Inl e1)
        then have "e = e1" using Cons.prems(7) rg Inr x ty by (simp add: Let_def)
        then show ?thesis using set_slot_error_kind[OF Inl] ib Cons.prems(6) by simp
      next
        case y: (Inr y)
        let ?w2 = "w\<lparr>rng := g, tensors := (tensors w)[xa := x, ya := y]\<rparr>"
        have step: "labeled_loop F sa la steps xa ya is ?w2 = (Inl e, w')"
          using Cons.prems(7) rg Inr x y ty by (simp add: Let_def)
        have p: "\<forall>i\<in>set is. i < b" "xa < length (tensors ?w2)" "ya < length (tensors ?w2)"
          "fst (snd (dims (tensors ?w2 ! xa))) = b" "fst (snd (dims (tensors ?w2 ! ya))) = b"
          using Cons.prems(1,2,3,4,5,6) set_slot_dims[OF x] set_slot_dims[OF y] by simp_all
        show ?thesis
          by (rule Cons.IH[OF p(1,2,3) Cons.prems(4) p(4,5) step])
      qed
    qed
  qed
qed

lemma labeled_sample_error_kind:
  assumes "0 \<le> steps" "0 \<le> batch_size"
    and "fst (labeled_sample F sa la steps batch_size w) = Inl e"
  shows "e = ValueError"
proof -
  let ?xa = "length (tensors w)"
  let ?zx = "\<lparr>dims = (nat steps, nat batch_size, ncols (mats w sa)),
             cells = replicate (nat steps) (replicate (nat batch_size) (replicate (ncols (mats w sa)) (0::'b)))\<rparr>"
  let ?zy = "\<lparr>dims = (nat steps, nat batch_size, ncols (mats w la)),
             cells = replicate (nat steps) (replicate (nat batch_size) (replicate (ncols (mats w la)) (0::'b)))\<rparr>"
  let ?w2 = "w\<lparr>tensors := tensors w @ [?zx, ?zy]\<rparr>"
  obtain r v where rv: "labeled_loop F sa la steps ?xa (Suc ?xa) [0..<nat batch_size] ?w2 = (r, v)"
    by (cases "labeled_loop F sa la steps ?xa (Suc ?xa) [0..<nat batch_size] ?w2")
  have run: "fst (labeled_sample F sa la steps batch_size w) =
      (case r of Inl e \<Rightarrow> Inl e | Inr u \<Rightarrow> Inr [?xa, Suc ?xa])"
    using rv by (simp add: labeled_sample_def np_zeros_ok[OF assms(1,2)] Let_def split: sum.splits)
  then have r: "r = Inl e" using assms(3) by (cases r) simp_all
  have p: "\<forall>i\<in>set [0..<nat batch_size]. i < nat batch_size"
    "?xa < length (tensors ?w2)" "Suc ?xa < length (tensors ?w2)" "?xa \<noteq> Suc ?xa"
    "fst (snd (dims (tensors ?w2 ! ?xa))) = nat batch_size"
    "fst (snd (dims (tensors ?w2 ! Suc ?xa))) = nat batch_size"
    by (simp_all add: nth_append)
  show ?thesis
    by (rule labeled_loop_error_kind[OF p rv[unfolded r]])
qed


subsection \<open>What the sampler checks\<close>

lemmas demo_eval = demo_world_def batches_def unlabeled_sample_def labeled_sample_def np_zeros_def
  randint_def set_slot_def slice2_def slice_bound_def len_def bc_row_def Let_def upt_conv_Cons

text \<open>
  C5, as stated, fails: the sampler has no check of its own and no error of kind
  InvalidWindow. A window length of zero is accepted (an empty batch comes back), and with
  \<open>batch_size = 0\<close> no draw is made, so even \<open>steps = 7\<close> on four frames is accepted.
\<close>

theorem invalid_window_counterexample:
  "fst (batches real_of_int 0 None 0 1 demo_world) = Inr [0] \<and>
   fst (batches real_of_int 0 None 7 0 demo_world) = Inr [0]"
  by (simp add: demo_eval)

text \<open>
  C5, amended. Building the generator never fails. A call fails with numpy's ValueError, and
  returns no batch, when \<open>steps\<close> or \<open>batch_size\<close> is negative (from the allocation) and
  when \<open>steps \<ge> N\<close> with \<open>batch_size \<ge> 1\<close> (from the first draw, whose range is empty). A
  call with \<open>batch_size = 0\<close>, or with \<open>steps = 0\<close> on a dataset that is not empty, is accepted.
  The boundary case \<open>steps = N - 1\<close> succeeds, and 0 is the only offset drawn: every slot
  holds \<open>samples[0 : steps]\<close>.
\<close>

theorem batches_window_errors:
  assumes "wf2 (mats w samples)"
  shows "(steps < 0 \<or> batch_size < 0 \<longrightarrow>
            fst (batches FLOAT samples labels steps batch_size w) = Inl ValueError) \<and>
         (int (len (mats w samples)) \<le> steps \<and> 1 \<le> batch_size \<longrightarrow>
            fst (batches FLOAT samples labels steps batch_size w) = Inl ValueError) \<and>
         (0 \<le> steps \<and> batch_size = 0 \<longrightarrow>
            fst (batches FLOAT samples None steps batch_size w) = Inr [length (tensors w)]) \<and>
         (steps = 0 \<and> 0 < len (mats w samples) \<and> 0 \<le> batch_size \<longrightarrow>
            fst (batches FLOAT samples None steps batch_size w) = Inr [length (tensors w)]) \<and>
         (0 \<le> steps \<and> steps = int (len (mats w samples)) - 1 \<and> 0 \<le> batch_size \<longrightarrow>
            (\<exists>xs w'. batches FLOAT samples None steps batch_size w = (Inr [xs], w') \<and>
               (\<forall>i<nat batch_size.
                  offset (len (mats w samples)) steps (rng w) i = 0 \<and>
                  get_slot (tensors w' ! xs) i =
                    map (map FLOAT) (rows (slice2 (mats w samples) 0 (0 + steps))))))"
proof (intro conjI impI)
  assume "steps < 0 \<or> batch_size < 0"
  then show "fst (batches FLOAT samples labels steps batch_size w) = Inl ValueError"
    by (simp add: batches_negative)
next
  assume "int (len (mats w samples)) \<le> steps \<and> 1 \<le> batch_size"
  then show "fst (batches FLOAT samples labels steps batch_size w) = Inl ValueError"
    by (simp add: batches_empty_range)
next
  assume "0 \<le> steps \<and> batch_size = 0"
  then show "fst (batches FLOAT samples None steps batch_size w) = Inr [length (tensors w)]"
    by (simp add: batches_empty_batch)
next
  assume a: "steps = 0 \<and> 0 < len (mats w samples) \<and> 0 \<le> batch_size"
  then have h: "0 \<le> steps" "steps < int (len (mats w samples))" "0 \<le> batch_size"
    by simp_all
  from unlabeled_sample_valid[OF h assms, of FLOAT] obtain v where
    "unlabeled_sample FLOAT samples steps batch_size w = (Inr [length (tensors w)], v)"
    by blast
  then show "fst (batches FLOAT samples None steps batch_size w) = Inr [length (tensors w)]"
    by (simp add: batches_def)
next
  let ?n = "len (mats w samples)"
  let ?xa = "length (tensors w)"
  assume a: "0 \<le> steps \<and> steps = int ?n - 1 \<and> 0 \<le> batch_size"
  then have h: "0 \<le> steps" "steps < int ?n" "0 \<le> batch_size"
    by simp_all
  have z: "offset ?n steps g i = 0" for g i
    using a by (simp add: offset_def)
  from unlabeled_sample_valid[OF h assms, of FLOAT] obtain v where
    v: "unlabeled_sample FLOAT samples steps batch_size w = (Inr [?xa], v)"
      "\<forall>i<nat batch_size. get_slot (tensors v ! ?xa) i =
         window FLOAT (mats w samples) steps (offset ?n steps (rng w) i)"
    by blast
  have wz: "window FLOAT (mats w samples) steps 0 =
      map (map FLOAT) (rows (slice2 (mats w samples) 0 (0 + steps)))"
    using h(1,2) by (intro window_slice2) simp_all
  show "\<exists>xs w'. batches FLOAT samples None steps batch_size w = (Inr [xs], w') \<and>
               (\<forall>i<nat batch_size.
                  offset ?n steps (rng w) i = 0 \<and>
                  get_slot (tensors w' ! xs) i =
                    map (map FLOAT) (rows (slice2 (mats w samples) 0 (0 + steps))))"
  proof (rule exI[of _ ?xa], rule exI[of _ v], intro conjI allI impI)
    show "batches FLOAT samples None steps batch_size w = (Inr [?xa], v)"
      using v(1) by (simp add: batches_def)
  next
    fix i assume "i < nat batch_size"
    then show "get_slot (tensors v ! ?xa) i =
        map (map FLOAT) (rows (slice2 (mats w samples) 0 (0 + steps)))"
      using v(2) z wz by simp
  next
    fix i show "offset ?n steps (rng w) i = 0" by (rule z)
  qed
qed

theorem batches_window_errors_witness:
  "wf2 (mats demo_world 0) \<and>
   fst (batches real_of_int 0 (Some 1) (- 1) 3 demo_world) = Inl ValueError \<and>
   fst (batches real_of_int 0 None 4 1 demo_world) = Inl ValueError \<and>
   fst (batches real_of_int 0 None 9 0 demo_world) = Inr [length (tensors demo_world)] \<and>
   fst (batches real_of_int 0 None 0 3 demo_world) = Inr [length (tensors demo_world)] \<and>
   (\<exists>xs w'. batches real_of_int 0 None 3 2 demo_world = (Inr [xs], w') \<and>
      (\<forall>i<nat 2. offset (len (mats demo_world 0)) 3 (rng demo_world) i = 0))"
proof -
  have h: "wf2 (mats demo_world 0)"
    by (simp add: demo_world_def wf2_def)
  have n: "len (mats demo_world 0) = 4"
    by (simp add: demo_world_def len_def)
  have a: "fst (batches real_of_int 0 (Some 1) (- 1) 3 demo_world) = Inl ValueError"
    using batches_window_errors[OF h, of "- 1" 3 real_of_int "Some 1"] by simp
  have b: "fst (batches real_of_int 0 None 4 1 demo_world) = Inl ValueError"
    using batches_window_errors[OF h, of 4 1 real_of_int None] n by simp
  have c: "fst (batches real_of_int 0 None 9 0 demo_world) = Inr [length (tensors demo_world)]"
    using batches_window_errors[OF h, of 9 0 real_of_int] by simp
  have d: "fst (batches real_of_int 0 None 0 3 demo_world) = Inr [length (tensors demo_world)]"
    using batches_window_errors[OF h, of 0 3 real_of_int] n by simp
  have e: "\<exists>xs w'. batches real_of_int 0 None 3 2 demo_world = (Inr [xs], w') \<and>
      (\<forall>i<nat 2. offset (len (mats demo_world 0)) 3 (rng demo_world) i = 0)"
    using batches_window_errors[OF h, of 3 2 real_of_int] n by simp blast
  show ?thesis using h a b c d e by blast
qed

text \<open>
  C6, as stated, fails: the lengths of \<open>labels\<close> and \<open>samples\<close> are never compared and there
  is no error of kind ShapeMismatch. With six labels for four samples the call succeeds; with
  two labels for four samples it succeeds as well on these draws (a label window of one row
  is broadcast).
\<close>

theorem shape_mismatch_counterexample:
  "len (mats demo_world 2) \<noteq> len (mats demo_world 0) \<and>
   fst (batches real_of_int 0 (Some 2) 2 3 demo_world) = Inr [0, 1] \<and>
   len (mats demo_world 3) \<noteq> len (mats demo_world 0) \<and>
   fst (batches real_of_int 0 (Some 3) 2 3 demo_world) = Inr [0, 1]"
  by (simp add: demo_eval)

text \<open>
  C6, amended. On a valid window, a call with labels at least as long as the samples, longer
  ones included, succeeds; a call can fail only when the labels are shorter than the
  samples, and then with the ValueError of numpy's array assignment.
\<close>

theorem labels_length_unchecked:
  assumes "0 \<le> steps" "steps < int (len (mats w samples))" "0 \<le> batch_size"
    and "wf2 (mats w samples)" "wf2 (mats w labels)"
  shows "(len (mats w samples) \<le> len (mats w labels) \<longrightarrow>
           (\<exists>xs ys w'. batches FLOAT samples (Some labels) steps batch_size w =
              (Inr [xs, ys], w'))) \<and>
         (\<forall>e. fst (batches FLOAT samples (Some labels) steps batch_size w) = Inl e \<longrightarrow>
            e = ValueError \<and> len (mats w labels) < len (mats w samples))"
proof (intro conjI impI allI)
  assume l: "len (mats w samples) \<le> len (mats w labels)"
  from labeled_sample_valid[OF assms(1,2,3,4) l assms(5), of FLOAT]
  show "\<exists>xs ys w'. batches FLOAT samples (Some labels) steps batch_size w = (Inr [xs, ys], w')"
    unfolding batches_def by (simp only: option.case) blast
next
  fix e assume e: "fst (batches FLOAT samples (Some labels) steps batch_size w) = Inl e"
  then have e': "fst (labeled_sample FLOAT samples labels steps batch_size w) = Inl e"
    by (simp add: batches_def)
  show "e = ValueError"
    by (rule labeled_sample_error_kind[OF assms(1,3) e'])
next
  fix e assume e: "fst (batches FLOAT samples (Some labels) steps batch_size w) = Inl e"
  show "len (mats w labels) < len (mats w samples)"
  proof (rule ccontr)
    assume "\<not> len (mats w labels) < len (mats w samples)"
    then have l: "len (mats w samples) \<le> len (mats w labels)" by simp
    from labeled_sample_valid[OF assms(1,2,3,4) l assms(5), of FLOAT] obtain v where
      "labeled_sample FLOAT samples labels steps batch_size w =
         (Inr [length (tensors w), Suc (length (tensors w))], v)" by blast
    then show False using e by (simp add: batches_def)
  qed
qed

theorem labels_length_unchecked_witness:
  "(0::int) \<le> 2 \<and> 2 < int (len (mats demo_world 0)) \<and>
   wf2 (mats demo_world 0) \<and> wf2 (mats demo_world 2) \<and>
   len (mats demo_world 0) \<le> len (mats demo_world 2) \<and>
   (\<exists>xs ys w'. batches real_of_int 0 (Some 2) 2 3 demo_world = (Inr [xs, ys], w')) \<and>
   fst (batches real_of_int 0 (Some 3) 1 3 demo_world) = Inl ValueError \<and>
   len (mats demo_world 3) < len (mats demo_world 0)"
proof -
  have h: "(0::int) \<le> 2" "2 < int (len (mats demo_world 0))" "(0::int) \<le> 3"
    "wf2 (mats demo_world 0)" "wf2 (mats demo_world 2)"
    by (simp_all add: demo_world_def len_def wf2_def)
  have l: "len (mats demo_world 0) \<le> len (mats demo_world 2)"
    by (simp add: demo_world_def len_def)
  have k: "(0::int) \<le> 1" "1 < int (len (mats demo_world 0))" "wf2 (mats demo_world 3)"
    by (simp_all add: demo_world_def len_def wf2_def)
  have f: "fst (batches real_of_int 0 (Some 3) 1 3 demo_world) = Inl ValueError"
    by (simp add: demo_eval)
  have a: "\<exists>xs ys w'. batches real_of_int 0 (Some 2) 2 3 demo_world = (Inr [xs, ys], w')"
    using labels_length_unchecked[OF h, of real_of_int] l by blast
  have b: "len (mats demo_world 3) < len (mats demo_world 0)"
    using labels_length_unchecked[OF k(1,2) h(3,4) k(3), of real_of_int] f by blast
  show ?thesis using h(1,2,4,5) l a b f by blast
qed


subsection \<open>What a call changes in the store\<close>

lemma unlabeled_loop_frame:
  "mats (snd (unlabeled_loop F sa steps xa is w)) = mats w \<and>
   length (tensors (snd (unlabeled_loop F sa steps xa is w))) = length (tensors w) \<and>
   (\<forall>a. a \<noteq> xa \<longrightarrow> tensors (snd (unlabeled_loop F sa steps xa is w)) ! a = tensors w ! a)"
proof (induction "is" arbitrary: w)
  case Nil
  show ?case by simp
next
  case (Cons i "is")
  obtain r g where rg: "randint (int (len (mats w sa)) - steps) (rng w) = (r, g)"
    by (cases "randint (int (len (mats w sa)) - steps) (rng w)")
  show ?case
  proof (cases r)
    case (Inl e)
    then show ?thesis using rg by simp
  next
    case (Inr j)
    show ?thesis
    proof (cases "set_slot F (tensors w ! xa) i (slice2 (mats w sa) j (j + steps))")
      case (Inl e)
      then show ?thesis using rg Inr by simp
    next
      case x: (Inr x)
      let ?w1 = "w\<lparr>rng := g, tensors := (tensors w)[xa := x]\<rparr>"
      have step: "unlabeled_loop F sa steps xa (i # is) w = unlabeled_loop F sa steps xa is ?w1"
        using rg Inr x by simp
      show ?thesis
        unfolding step using Cons.IH[of ?w1] by simp
    qed
  qed
qed

lemma labeled_loop_frame:
  "mats (snd (labeled_loop F sa la steps xa ya is w)) = mats w \<and>
   length (tensors (snd (labeled_loop F sa la steps xa ya is w))) = length (tensors w) \<and>
   (\<forall>a. a \<noteq> xa \<and> a \<noteq> ya \<longrightarrow>
      tensors (snd (labeled_loop F sa la steps xa ya is w)) ! a = tensors w ! a)"
proof (induction "is" arbitrary: w)
  case Nil
  show ?case by simp
next
  case (Cons i "is")
  obtain r g where rg: "randint (int (len (mats w sa)) - steps) (rng w) = (r, g)"
    by (cases "randint (int (len (mats w sa)) - steps) (rng w)")
  show ?case
  proof (cases r)
    case (Inl e)
    then show ?thesis using rg by simp
  next
    case (Inr j)
    show ?thesis
    proof (cases "set_slot F (tensors w ! xa) i (slice2 (mats w sa) j (j + steps))")
      case (Inl e)
      then show ?thesis using rg Inr by simp
    next
      case x: (Inr x)
      let ?w1 = "w\<lparr>rng := g, tensors := (tensors w)[xa := x]\<rparr>"
      show ?thesis
      proof (cases "set_slot F (tensors ?w1 ! ya) i (slice2 (mats ?w1 la) j (j + steps))")
        case (Inl e)
        then show ?thesis using rg Inr x by (simp add: Let_def)
      next
        case y: (Inr y)
        let ?w2 = "?w1\<lparr>tensors := (tensors ?w1)[ya := y]\<rparr>"
        have step: "labeled_loop F sa la steps xa ya (i # is) w =
            labeled_loop F sa la steps xa ya is ?w2"
          using rg Inr x y by (simp add: Let_def)
        show ?thesis
          unfolding step using Cons.IH[of ?w2] by simp
      qed
    qed
  qed
qed


subsection \<open>What the result of a call depends on\<close>

lemma unlabeled_loop_agree:
  assumes "rng w1 = rng w2" "mats w1 sa1 = mats w2 sa2"
    and "tensors w1 ! xa1 = tensors w2 ! xa2"
    and "xa1 < length (tensors w1)" "xa2 < length (tensors w2)"
  shows "fst (unlabeled_loop F sa1 steps xa1 is w1) = fst (unlabeled_loop F sa2 steps xa2 is w2) \<and>
         rng (snd (unlabeled_loop F sa1 steps xa1 is w1)) =
           rng (snd (unlabeled_loop F sa2 steps xa2 is w2)) \<and>
         tensors (snd (unlabeled_loop F sa1 steps xa1 is w1)) ! xa1 =
           tensors (snd (unlabeled_loop F sa2 steps xa2 is w2)) ! xa2"
  using assms
proof (induction "is" arbitrary: w1 w2)
  case Nil
  then show ?case by simp
next
  case (Cons i "is")
  obtain r g where rg: "randint (int (len (mats w1 sa1)) - steps) (rng w1) = (r, g)"
    by (cases "randint (int (len (mats w1 sa1)) - steps) (rng w1)")
  have rg2: "randint (int (len (mats w2 sa2)) - steps) (rng w2) = (r, g)"
    using rg Cons.prems(1,2) by simp
  show ?case
  proof (cases r)
    case (Inl e)
    then show ?thesis using rg rg2 Cons.prems(3) by simp
  next
    case (Inr j)
    show ?thesis
    proof (cases "set_slot F (tensors w1 ! xa1) i (slice2 (mats w1 sa1) j (j + steps))")
      case (Inl e)
      then have "set_slot F (tensors w2 ! xa2) i (slice2 (mats w2 sa2) j (j + steps)) = Inl e"
        using Cons.prems(2,3) by simp
      with Inl show ?thesis using rg rg2 Inr Cons.prems(3) by simp
    next
      case x: (Inr x)
      then have x2: "set_slot F (tensors w2 ! xa2) i (slice2 (mats w2 sa2) j (j + steps)) = Inr x"
        using Cons.prems(2,3) by simp
      let ?v1 = "w1\<lparr>rng := g, tensors := (tensors w1)[xa1 := x]\<rparr>"
      let ?v2 = "w2\<lparr>rng := g, tensors := (tensors w2)[xa2 := x]\<rparr>"
      have s1: "unlabeled_loop F sa1 steps xa1 (i # is) w1 = unlabeled_loop F sa1 steps xa1 is ?v1"
        using rg Inr x by simp
      have s2: "unlabeled_loop F sa2 steps xa2 (i # is) w2 = unlabeled_loop F sa2 steps xa2 is ?v2"
        using rg2 Inr x2 by simp
      have p: "rng ?v1 = rng ?v2" "mats ?v1 sa1 = mats ?v2 sa2"
        "tensors ?v1 ! xa1 = tensors ?v2 ! xa2"
        "xa1 < length (tensors ?v1)" "xa2 < length (tensors ?v2)"
        using Cons.prems by simp_all
      show ?thesis
        unfolding s1 s2 by (rule Cons.IH[OF p])
    qed
  qed
qed

lemma labeled_loop_agree:
  assumes "rng w1 = rng w2" "mats w1 sa1 = mats w2 sa2" "mats w1 la1 = mats w2 la2"
    and "tensors w1 ! xa1 = tensors w2 ! xa2" "tensors w1 ! ya1 = tensors w2 ! ya2"
    and "xa1 < length (tensors w1)" "xa2 < length (tensors w2)"
    and "ya1 < length (tensors w1)" "ya2 < length (tensors w2)"
    and "xa1 \<noteq> ya1" "xa2 \<noteq> ya2"
  shows "fst (labeled_loop F sa1 la1 steps xa1 ya1 is w1) =
           fst (labeled_loop F sa2 la2 steps xa2 ya2 is w2) \<and>
         rng (snd (labeled_loop F sa1 la1 steps xa1 ya1 is w1)) =
           rng (snd (labeled_loop F sa2 la2 steps xa2 ya2 is w2)) \<and>
         tensors (snd (labeled_loop F sa1 la1 steps xa1 ya1 is w1)) ! xa1 =
           tensors (snd (labeled_loop F sa2 la2 steps xa2 ya2 is w2)) ! xa2 \<and>
         tensors (snd (labeled_loop F sa1 la1 steps xa1 ya1 is w1)) ! ya1 =
           tensors (snd (labeled_loop F sa2 la2 steps xa2 ya2 is w2)) ! ya2"
  using assms
proof (induction "is" arbitrary: w1 w2)
  case Nil
  then show ?case by simp
next
  case (Cons i "is")
  obtain r g where rg: "randint (int (len (mats w1 sa1)) - steps) (rng w1) = (r, g)"
    by (cases "randint (int (len (mats w1 sa1)) - steps) (rng w1)")
  have rg2: "randint (int (len (mats w2 sa2)) - steps) (rng w2) = (r, g)"
    using rg Cons.prems(1,2) by simp
  show ?case
  proof (cases r)
    case (Inl e)
    then show ?thesis using rg rg2 Cons.prems(4,5) by simp
  next
    case (Inr j)
    show ?thesis
    proof (cases "set_slot F (tensors w1 ! xa1) i (slice2 (mats w1 sa1) j (j + steps))")
      case (Inl e)
      then have "set_slot F (tensors w2 ! xa2) i (slice2 (mats w2 sa2) j (j + steps)) = Inl e"
        using Cons.prems(2,4) by simp
      with Inl show ?thesis using rg rg2 Inr Cons.prems(4,5) by simp
    next
      case x: (Inr x)
      then have x2: "set_slot F (tensors w2 ! xa2) i (slice2 (mats w2 sa2) j (j + steps)) = Inr x"
        using Cons.prems(2,4) by simp
      let ?u1 = "w1\<lparr>rng := g, tensors := (tensors w1)[xa1 := x]\<rparr>"
      let ?u2 = "w2\<lparr>rng := g, tensors := (tensors w2)[xa2 := x]\<rparr>"
      have y12: "tensors ?u1 ! ya1 = tensors w1 ! ya1" "tensors ?u2 ! ya2 = tensors w2 ! ya2"
        using Cons.prems(10,11) by simp_all
      have xx: "tensors ?u1 ! xa1 = x" "tensors ?u2 ! xa2 = x"
        using Cons.prems(6,7) by simp_all
      show ?thesis
      proof (cases "set_slot F (tensors w1 ! ya1) i (slice2 (mats w1 la1) j (j + steps))")
        case (Inl e)
        then have e2: "set_slot F (tensors w2 ! ya2) i (slice2 (mats w2 la2) j (j + steps)) = Inl e"
          using Cons.prems(3,5) by simp
        have s1: "labeled_loop F sa1 la1 steps xa1 ya1 (i # is) w1 = (Inl e, ?u1)"
          using rg Inr x Inl y12 by (simp add: Let_def)
        have s2: "labeled_loop F sa2 la2 steps xa2 ya2 (i # is) w2 = (Inl e, ?u2)"
          using rg2 Inr x2 e2 y12 by (simp add: Let_def)
        show ?thesis
          unfolding s1 s2 using xx y12 Cons.prems(5) by simp
      next
        case y: (Inr y)
        then have y2: "set_slot F (tensors w2 ! ya2) i (slice2 (mats w2 la2) j (j + steps)) = Inr y"
          using Cons.prems(3,5) by simp
        let ?v1 = "w1\<lparr>rng := g, tensors := (tensors w1)[xa1 := x, ya1 := y]\<rparr>"
        let ?v2 = "w2\<lparr>rng := g, tensors := (tensors w2)[xa2 := x, ya2 := y]\<rparr>"
        have s1: "labeled_loop F sa1 la1 steps xa1 ya1 (i # is) w1 =
            labeled_loop F sa1 la1 steps xa1 ya1 is ?v1"
          using rg Inr x y y12 by (simp add: Let_def)
        have s2: "labeled_loop F sa2 la2 steps xa2 ya2 (i # is) w2 =
            labeled_loop F sa2 la2 steps xa2 ya2 is ?v2"
          using rg2 Inr x2 y2 y12 by (simp add: Let_def)
        have p: "rng ?v1 = rng ?v2" "mats ?v1 sa1 = mats ?v2 sa2" "mats ?v1 la1 = mats ?v2 la2"
          "tensors ?v1 ! xa1 = tensors ?v2 ! xa2" "tensors ?v1 ! ya1 = tensors ?v2 ! ya2"
          "xa1 < length (tensors ?v1)" "xa2 < length (tensors ?v2)"
          "ya1 < length (tensors ?v1)" "ya2 < length (tensors ?v2)"
          using Cons.prems by simp_all
        show ?thesis
          unfolding s1 s2 by (rule Cons.IH[OF p Cons.prems(10,11)])
      qed
    qed
  qed
qed


subsection \<open>The samplers around their loops\<close>

lemma unlabeled_sample_unfold:
  "unlabeled_sample F sa steps B w =
     (if steps < 0 \<or> B < 0 then (Inl ValueError, w)
      else (case fst (unlabeled_loop F sa steps (length (tensors w)) [0..<nat B]
                  (w\<lparr>tensors := tensors w @
                     [\<lparr>dims = (nat steps, nat B, ncols (mats w sa)),
                       cells = replicate (nat steps) (replicate (nat B)
                                 (replicate (ncols (mats w sa)) 0))\<rparr>]\<rparr>)) of
              Inl e \<Rightarrow> Inl e
            | Inr u \<Rightarrow> Inr [length (tensors w)],
            snd (unlabeled_loop F sa steps (length (tensors w)) [0..<nat B]
                  (w\<lparr>tensors := tensors w @
                     [\<lparr>dims = (nat steps, nat B, ncols (mats w sa)),
                       cells = replicate (nat steps) (replicate (nat B)
                                 (replicate (ncols (mats w sa)) 0))\<rparr>]\<rparr>))))"
  by (simp add: unlabeled_sample_def np_zeros_def Let_def split: prod.splits sum.splits)

lemma labeled_sample_unfold:
  "labeled_sample F sa la steps B w =
     (if steps < 0 \<or> B < 0 then (Inl ValueError, w)
      else (case fst (labeled_loop F sa la steps (length (tensors w)) (Suc (length (tensors w)))
                  [0..<nat B]
                  (w\<lparr>tensors := tensors w @
                     [\<lparr>dims = (nat steps, nat B, ncols (mats w sa)),
                       cells = replicate (nat steps) (replicate (nat B)
                                 (replicate (ncols (mats w sa)) 0))\<rparr>,
                      \<lparr>dims = (nat steps, nat B, ncols (mats w la)),
                       cells = replicate (nat steps) (replicate (nat B)
                                 (replicate (ncols (mats w la)) 0))\<rparr>]\<rparr>)) of
              Inl e \<Rightarrow> Inl e
            | Inr u \<Rightarrow> Inr [length (tensors w), Suc (length (tensors w))],
            snd (labeled_loop F sa la steps (length (tensors w)) (Suc (length (tensors w)))
                  [0..<nat B]
                  (w\<lparr>tensors := tensors w @
                     [\<lparr>dims = (nat steps, nat B, ncols (mats w sa)),
                       cells = replicate (nat steps) (replicate (nat B)
                                 (replicate (ncols (mats w sa)) 0))\<rparr>,
                      \<lparr>dims = (nat steps, nat B, ncols (mats w la)),
                       cells = replicate (nat steps) (replicate (nat B)
                                 (replicate (ncols (mats w la)) 0))\<rparr>]\<rparr>))))"
  by (simp add: labeled_sample_def np_zeros_def Let_def split: prod.splits sum.splits)


lemma unlabeled_sample_frame:
  "mats (snd (unlabeled_sample F sa steps B w)) = mats w \<and>
   length (tensors w) \<le> length (tensors (snd (unlabeled_sample F sa steps B w))) \<and>
   (\<forall>a<length (tensors w). tensors (snd (unlabeled_sample F sa steps B w)) ! a = tensors w ! a) \<and>
   (\<forall>as. fst (unlabeled_sample F sa steps B w) = Inr as \<longrightarrow>
      as = [length (tensors w)] \<and>
      length (tensors (snd (unlabeled_sample F sa steps B w))) = Suc (length (tensors w)))"
proof (cases "steps < 0 \<or> B < 0")
  case True
  then show ?thesis by (simp add: unlabeled_sample_unfold)
next
  case False
  define w1 where "w1 = w\<lparr>tensors := tensors w @
                     [\<lparr>dims = (nat steps, nat B, ncols (mats w sa)),
                       cells = replicate (nat steps) (replicate (nat B)
                                 (replicate (ncols (mats w sa)) (0::'b)))\<rparr>]\<rparr>"
  define run where "run = unlabeled_loop F sa steps (length (tensors w)) [0..<nat B] w1"
  have u: "unlabeled_sample F sa steps B w =
      (case fst run of Inl e \<Rightarrow> Inl e | Inr u \<Rightarrow> Inr [length (tensors w)], snd run)"
    using False by (simp add: unlabeled_sample_unfold w1_def run_def)
  have f: "mats (snd run) = mats w1" "length (tensors (snd run)) = length (tensors w1)"
    "\<forall>a. a \<noteq> length (tensors w) \<longrightarrow> tensors (snd run) ! a = tensors w1 ! a"
    using unlabeled_loop_frame[of F sa steps "length (tensors w)" "[0..<nat B]" w1]
    unfolding run_def by simp_all
  have w1: "mats w1 = mats w" "length (tensors w1) = Suc (length (tensors w))"
    "\<forall>a<length (tensors w). tensors w1 ! a = tensors w ! a"
    by (simp_all add: w1_def nth_append)
  show ?thesis
    unfolding u using f w1 by (cases "fst run") simp_all
qed

lemma labeled_sample_frame:
  "mats (snd (labeled_sample F sa la steps B w)) = mats w \<and>
   length (tensors w) \<le> length (tensors (snd (labeled_sample F sa la steps B w))) \<and>
   (\<forall>a<length (tensors w). tensors (snd (labeled_sample F sa la steps B w)) ! a = tensors w ! a) \<and>
   (\<forall>as. fst (labeled_sample F sa la steps B w) = Inr as \<longrightarrow>
      as = [length (tensors w), Suc (length (tensors w))] \<and>
      length (tensors (snd (labeled_sample F sa la steps B w))) = Suc (Suc (length (tensors w))))"
proof (cases "steps < 0 \<or> B < 0")
  case True
  then show ?thesis by (simp add: labeled_sample_unfold)
next
  case False
  define w1 where "w1 = w\<lparr>tensors := tensors w @
                     [\<lparr>dims = (nat steps, nat B, ncols (mats w sa)),
                       cells = replicate (nat steps) (replicate (nat B)
                                 (replicate (ncols (mats w sa)) (0::'b)))\<rparr>,
                      \<lparr>dims = (nat steps, nat B, ncols (mats w la)),
                       cells = replicate (nat steps) (replicate (nat B)
                                 (replicate (ncols (mats w la)) 0))\<rparr>]\<rparr>"
  define run where "run = labeled_loop F sa la steps (length (tensors w)) (Suc (length (tensors w)))
      [0..<nat B] w1"
  have u: "labeled_sample F sa la steps B w =
      (case fst run of Inl e \<Rightarrow> Inl e
       | Inr u \<Rightarrow> Inr [length (tensors w), Suc (length (tensors w))], snd run)"
    using False by (simp add: labeled_sample_unfold w1_def run_def)
  have f: "mats (snd run) = mats w1" "length (tensors (snd run)) = length (tensors w1)"
    "\<forall>a. a \<noteq> length (tensors w) \<and> a \<noteq> Suc (length (tensors w)) \<longrightarrow>
       tensors (snd run) ! a = tensors w1 ! a"
    using labeled_loop_frame[of F sa la steps "length (tensors w)" "Suc (length (tensors w))"
        "[0..<nat B]" w1]
    unfolding run_def by simp_all
  have w1: "mats w1 = mats w" "length (tensors w1) = Suc (Suc (length (tensors w)))"
    "\<forall>a<length (tensors w). tensors w1 ! a = tensors w ! a"
    by (simp_all add: w1_def nth_append)
  show ?thesis
    unfolding u using f w1 by (cases "fst run") simp_all
qed

lemma batches_frame:
  "mats (snd (batches F sa labels steps B w)) = mats w \<and>
   length (tensors w) \<le> length (tensors (snd (batches F sa labels steps B w))) \<and>
   (\<forall>a<length (tensors w). tensors (snd (batches F sa labels steps B w)) ! a = tensors w ! a) \<and>
   (\<forall>as. fst (batches F sa labels steps B w) = Inr as \<longrightarrow>
      distinct as \<and>
      (\<forall>a\<in>set as. length (tensors w) \<le> a \<and>
         a < length (tensors (snd (batches F sa labels steps B w)))))"
proof (cases labels)
  case None
  show ?thesis
    using unlabeled_sample_frame[of F sa steps B w] unfolding None batches_def
    by (simp only: option.case) auto
next
  case (Some l)
  show ?thesis
    using labeled_sample_frame[of F sa l steps B w] unfolding Some batches_def
    by (simp only: option.case) auto
qed


lemma unlabeled_sample_agree:
  assumes "rng w1 = rng w2" "mats w1 sa = mats w2 sa"
  shows "returned (unlabeled_sample F sa steps B w1) = returned (unlabeled_sample F sa steps B w2) \<and>
         rng (snd (unlabeled_sample F sa steps B w1)) = rng (snd (unlabeled_sample F sa steps B w2))"
proof (cases "steps < 0 \<or> B < 0")
  case True
  then show ?thesis using assms(1) by (simp add: unlabeled_sample_unfold returned_def)
next
  case False
  define z where "z = \<lparr>dims = (nat steps, nat B, ncols (mats w1 sa)),
                       cells = replicate (nat steps) (replicate (nat B)
                                 (replicate (ncols (mats w1 sa)) (0::'b)))\<rparr>"
  define u1 where "u1 = w1\<lparr>tensors := tensors w1 @ [z]\<rparr>"
  define u2 where "u2 = w2\<lparr>tensors := tensors w2 @ [z]\<rparr>"
  define run1 where "run1 = unlabeled_loop F sa steps (length (tensors w1)) [0..<nat B] u1"
  define run2 where "run2 = unlabeled_loop F sa steps (length (tensors w2)) [0..<nat B] u2"
  have e1: "unlabeled_sample F sa steps B w1 =
      (case fst run1 of Inl e \<Rightarrow> Inl e | Inr u \<Rightarrow> Inr [length (tensors w1)], snd run1)"
    using False by (simp add: unlabeled_sample_unfold u1_def run1_def z_def)
  have e2: "unlabeled_sample F sa steps B w2 =
      (case fst run2 of Inl e \<Rightarrow> Inl e | Inr u \<Rightarrow> Inr [length (tensors w2)], snd run2)"
    using False assms(2) by (simp add: unlabeled_sample_unfold u2_def run2_def z_def)
  have p: "rng u1 = rng u2" "mats u1 sa = mats u2 sa"
    "tensors u1 ! length (tensors w1) = tensors u2 ! length (tensors w2)"
    "length (tensors w1) < length (tensors u1)" "length (tensors w2) < length (tensors u2)"
    using assms by (simp_all add: u1_def u2_def)
  have a: "fst run1 = fst run2" "rng (snd run1) = rng (snd run2)"
    "tensors (snd run1) ! length (tensors w1) = tensors (snd run2) ! length (tensors w2)"
    using unlabeled_loop_agree[OF p, of F steps "[0..<nat B]"]
    unfolding run1_def run2_def by simp_all
  show ?thesis
    unfolding e1 e2 using a by (cases "fst run2") (simp_all add: returned_def)
qed

lemma labeled_sample_agree:
  assumes "rng w1 = rng w2" "mats w1 sa = mats w2 sa" "mats w1 la = mats w2 la"
  shows "returned (labeled_sample F sa la steps B w1) = returned (labeled_sample F sa la steps B w2) \<and>
         rng (snd (labeled_sample F sa la steps B w1)) = rng (snd (labeled_sample F sa la steps B w2))"
proof (cases "steps < 0 \<or> B < 0")
  case True
  then show ?thesis using assms(1) by (simp add: labeled_sample_unfold returned_def)
next
  case False
  define zx where "zx = \<lparr>dims = (nat steps, nat B, ncols (mats w1 sa)),
                       cells = replicate (nat steps) (replicate (nat B)
                                 (replicate (ncols (mats w1 sa)) (0::'b)))\<rparr>"
  define zy where "zy = \<lparr>dims = (nat steps, nat B, ncols (mats w1 la)),
                       cells = replicate (nat steps) (replicate (nat B)
                                 (replicate (ncols (mats w1 la)) (0::'b)))\<rparr>"
  define u1 where "u1 = w1\<lparr>tensors := tensors w1 @ [zx, zy]\<rparr>"
  define u2 where "u2 = w2\<lparr>tensors := tensors w2 @ [zx, zy]\<rparr>"
  define run1 where "run1 = labeled_loop F sa la steps (length (tensors w1))
      (Suc (length (tensors w1))) [0..<nat B] u1"
  define run2 where "run2 = labeled_loop F sa la steps (length (tensors w2))
      (Suc (length (tensors w2))) [0..<nat B] u2"
  have e1: "labeled_sample F sa la steps B w1 =
      (case fst run1 of Inl e \<Rightarrow> Inl e
       | Inr u \<Rightarrow> Inr [length (tensors w1), Suc (length (tensors w1))], snd run1)"
    using False by (simp add: labeled_sample_unfold u1_def run1_def zx_def zy_def)
  have e2: "labeled_sample F sa la steps B w2 =
      (case fst run2 of Inl e \<Rightarrow> Inl e
       | Inr u \<Rightarrow> Inr [length (tensors w2), Suc (length (tensors w2))], snd run2)"
    using False assms(2,3) by (simp add: labeled_sample_unfold u2_def run2_def zx_def zy_def)
  have p: "rng u1 = rng u2" "mats u1 sa = mats u2 sa" "mats u1 la = mats u2 la"
    "tensors u1 ! length (tensors w1) = tensors u2 ! length (tensors w2)"
    "tensors u1 ! Suc (length (tensors w1)) = tensors u2 ! Suc (length (tensors w2))"
    "length (tensors w1) < length (tensors u1)" "length (tensors w2) < length (tensors u2)"
    "Suc (length (tensors w1)) < length (tensors u1)"
    "Suc (length (tensors w2)) < length (tensors u2)"
    "length (tensors w1) \<noteq> Suc (length (tensors w1))"
    "length (tensors w2) \<noteq> Suc (length (tensors w2))"
    using assms by (simp_all add: u1_def u2_def nth_append)
  have a: "fst run1 = fst run2" "rng (snd run1) = rng (snd run2)"
    "tensors (snd run1) ! length (tensors w1) = tensors (snd run2) ! length (tensors w2)"
    "tensors (snd run1) ! Suc (length (tensors w1)) = tensors (snd run2) ! Suc (length (tensors w2))"
    using labeled_loop_agree[OF p, of F steps "[0..<nat B]"]
    unfolding run1_def run2_def by simp_all
  show ?thesis
    unfolding e1 e2 using a by (cases "fst run2") (simp_all add: returned_def)
qed

lemma batches_agree:
  assumes "rng w1 = rng w2" "mats w1 sa = mats w2 sa"
    and "\<forall>l. labels = Some l \<longrightarrow> mats w1 l = mats w2 l"
  shows "returned (batches F sa labels steps B w1) = returned (batches F sa labels steps B w2) \<and>
         rng (snd (batches F sa labels steps B w1)) = rng (snd (batches F sa labels steps B w2))"
proof (cases labels)
  case None
  show ?thesis
    unfolding None batches_def option.case
    by (rule unlabeled_sample_agree[OF assms(1,2)])
next
  case (Some l)
  then have "mats w1 l = mats w2 l" using assms(3) by simp
  then show ?thesis
    unfolding Some batches_def option.case
    by (rule labeled_sample_agree[OF assms(1,2)])
qed


subsection \<open>The labeled sampler beside the unlabeled one\<close>

lemma set_slot_succeeds_iff:
  "(\<exists>t'. set_slot F t i v = Inr t') \<longleftrightarrow>
     i < fst (snd (dims t)) \<and> (len v = fst (dims t) \<or> len v = 1) \<and>
     (ncols v = snd (snd (dims t)) \<or> ncols v = 1)"
  by (auto simp: set_slot_def Let_def split: prod.splits)

lemma len_slice2_cong: "len a = len b \<Longrightarrow> len (slice2 a lo hi) = len (slice2 b lo hi)"
  by (simp add: slice2_def len_def Let_def)

lemma ncols_slice2: "ncols (slice2 a lo hi) = ncols a"
  by (simp add: slice2_def Let_def)

lemma labeled_vs_unlabeled_loop:
  assumes "rng w1 = rng w2" "mats w1 sa = mats w2 sa" "len (mats w1 la) = len (mats w1 sa)"
    and "tensors w1 ! xa1 = tensors w2 ! xa2"
    and "xa1 < length (tensors w1)" "xa2 < length (tensors w2)" "ya1 < length (tensors w1)"
    and "xa1 \<noteq> ya1"
    and "dims (tensors w1 ! ya1) =
           (fst (dims (tensors w1 ! xa1)), fst (snd (dims (tensors w1 ! xa1))), ncols (mats w1 la))"
  shows "fst (labeled_loop F sa la steps xa1 ya1 is w1) = fst (unlabeled_loop F sa steps xa2 is w2) \<and>
         rng (snd (labeled_loop F sa la steps xa1 ya1 is w1)) =
           rng (snd (unlabeled_loop F sa steps xa2 is w2)) \<and>
         tensors (snd (labeled_loop F sa la steps xa1 ya1 is w1)) ! xa1 =
           tensors (snd (unlabeled_loop F sa steps xa2 is w2)) ! xa2"
  using assms
proof (induction "is" arbitrary: w1 w2)
  case Nil
  then show ?case by simp
next
  case (Cons i "is")
  obtain r g where rg: "randint (int (len (mats w1 sa)) - steps) (rng w1) = (r, g)"
    by (cases "randint (int (len (mats w1 sa)) - steps) (rng w1)")
  have rg2: "randint (int (len (mats w2 sa)) - steps) (rng w2) = (r, g)"
    using rg Cons.prems(1,2) by simp
  show ?case
  proof (cases r)
    case (Inl e)
    then show ?thesis using rg rg2 Cons.prems(4) by simp
  next
    case (Inr j)
    let ?vx = "slice2 (mats w1 sa) j (j + steps)"
    let ?vy = "slice2 (mats w1 la) j (j + steps)"
    show ?thesis
    proof (cases "set_slot F (tensors w1 ! xa1) i ?vx")
      case (Inl e)
      then have "set_slot F (tensors w2 ! xa2) i (slice2 (mats w2 sa) j (j + steps)) = Inl e"
        using Cons.prems(2,4) by simp
      with Inl show ?thesis using rg rg2 Inr Cons.prems(4) by simp
    next
      case x: (Inr x)
      then have x2: "set_slot F (tensors w2 ! xa2) i (slice2 (mats w2 sa) j (j + steps)) = Inr x"
        using Cons.prems(2,4) by simp
      have ok: "i < fst (snd (dims (tensors w1 ! xa1)))"
        "len ?vx = fst (dims (tensors w1 ! xa1)) \<or> len ?vx = 1"
        using x set_slot_succeeds_iff[of F "tensors w1 ! xa1" i ?vx] by auto
      have lv: "len ?vy = len ?vx"
        by (rule len_slice2_cong[OF Cons.prems(3)])
      have "\<exists>y. set_slot F (tensors w1 ! ya1) i ?vy = Inr y"
        unfolding set_slot_succeeds_iff using ok lv Cons.prems(9) by (simp add: ncols_slice2)
      then obtain y where y: "set_slot F (tensors w1 ! ya1) i ?vy = Inr y" by blast
      let ?u1 = "w1\<lparr>rng := g, tensors := (tensors w1)[xa1 := x]\<rparr>"
      have y1: "tensors ?u1 ! ya1 = tensors w1 ! ya1"
        using Cons.prems(8) by simp
      let ?v1 = "w1\<lparr>rng := g, tensors := (tensors w1)[xa1 := x, ya1 := y]\<rparr>"
      let ?v2 = "w2\<lparr>rng := g, tensors := (tensors w2)[xa2 := x]\<rparr>"
      have s1: "labeled_loop F sa la steps xa1 ya1 (i # is) w1 =
          labeled_loop F sa la steps xa1 ya1 is ?v1"
        using rg Inr x y y1 by (simp add: Let_def)
      have s2: "unlabeled_loop F sa steps xa2 (i # is) w2 = unlabeled_loop F sa steps xa2 is ?v2"
        using rg2 Inr x2 by simp
      have tx: "tensors ?v1 ! xa1 = x" "tensors ?v2 ! xa2 = x" "tensors ?v1 ! ya1 = y"
        using Cons.prems(5,6,7,8) by simp_all
      have p: "rng ?v1 = rng ?v2" "mats ?v1 sa = mats ?v2 sa"
        "len (mats ?v1 la) = len (mats ?v1 sa)"
        "tensors ?v1 ! xa1 = tensors ?v2 ! xa2"
        "xa1 < length (tensors ?v1)" "xa2 < length (tensors ?v2)" "ya1 < length (tensors ?v1)"
        using Cons.prems(1,2,3,5,6,7) tx by simp_all
      have d: "dims (tensors ?v1 ! ya1) =
           (fst (dims (tensors ?v1 ! xa1)), fst (snd (dims (tensors ?v1 ! xa1))),
            ncols (mats ?v1 la))"
        unfolding tx using set_slot_dims[OF x] set_slot_dims[OF y] Cons.prems(9) by simp
      show ?thesis
        unfolding s1 s2 by (rule Cons.IH[OF p Cons.prems(8) d])
    qed
  qed
qed


lemma labeled_vs_unlabeled_sample:
  assumes "rng w1 = rng w2" "mats w1 sa = mats w2 sa" "len (mats w1 la) = len (mats w1 sa)"
  shows "(case fst (labeled_sample F sa la steps B w1) of
            Inl e \<Rightarrow> Inl e
          | Inr as \<Rightarrow> Inr (tensors (snd (labeled_sample F sa la steps B w1)) ! hd as)) =
         (case fst (unlabeled_sample F sa steps B w2) of
            Inl e \<Rightarrow> Inl e
          | Inr as \<Rightarrow> Inr (tensors (snd (unlabeled_sample F sa steps B w2)) ! hd as)) \<and>
         rng (snd (labeled_sample F sa la steps B w1)) = rng (snd (unlabeled_sample F sa steps B w2))"
proof (cases "steps < 0 \<or> B < 0")
  case True
  then show ?thesis using assms(1) by (simp add: labeled_sample_unfold unlabeled_sample_unfold)
next
  case False
  define zx where "zx = \<lparr>dims = (nat steps, nat B, ncols (mats w1 sa)),
                       cells = replicate (nat steps) (replicate (nat B)
                                 (replicate (ncols (mats w1 sa)) (0::'b)))\<rparr>"
  define zy where "zy = \<lparr>dims = (nat steps, nat B, ncols (mats w1 la)),
                       cells = replicate (nat steps) (replicate (nat B)
                                 (replicate (ncols (mats w1 la)) (0::'b)))\<rparr>"
  define u1 where "u1 = w1\<lparr>tensors := tensors w1 @ [zx, zy]\<rparr>"
  define u2 where "u2 = w2\<lparr>tensors := tensors w2 @ [zx]\<rparr>"
  define run1 where "run1 = labeled_loop F sa la steps (length (tensors w1))
      (Suc (length (tensors w1))) [0..<nat B] u1"
  define run2 where "run2 = unlabeled_loop F sa steps (length (tensors w2)) [0..<nat B] u2"
  have e1: "labeled_sample F sa la steps B w1 =
      (case fst run1 of Inl e \<Rightarrow> Inl e
       | Inr u \<Rightarrow> Inr [length (tensors w1), Suc (length (tensors w1))], snd run1)"
    using False by (simp add: labeled_sample_unfold u1_def run1_def zx_def zy_def)
  have e2: "unlabeled_sample F sa steps B w2 =
      (case fst run2 of Inl e \<Rightarrow> Inl e | Inr u \<Rightarrow> Inr [length (tensors w2)], snd run2)"
    using False assms(2) by (simp add: unlabeled_sample_unfold u2_def run2_def zx_def)
  have t: "tensors u1 ! length (tensors w1) = zx" "tensors u1 ! Suc (length (tensors w1)) = zy"
    "tensors u2 ! length (tensors w2) = zx"
    by (simp_all add: u1_def u2_def nth_append)
  have p: "rng u1 = rng u2" "mats u1 sa = mats u2 sa" "len (mats u1 la) = len (mats u1 sa)"
    "tensors u1 ! length (tensors w1) = tensors u2 ! length (tensors w2)"
    "length (tensors w1) < length (tensors u1)" "length (tensors w2) < length (tensors u2)"
    "Suc (length (tensors w1)) < length (tensors u1)"
    "length (tensors w1) \<noteq> Suc (length (tensors w1))"
    unfolding t using assms by (simp_all add: u1_def u2_def)
  have d: "dims (tensors u1 ! Suc (length (tensors w1))) =
      (fst (dims (tensors u1 ! length (tensors w1))),
       fst (snd (dims (tensors u1 ! length (tensors w1)))), ncols (mats u1 la))"
    unfolding t by (simp add: zx_def zy_def u1_def)
  have a: "fst run1 = fst run2" "rng (snd run1) = rng (snd run2)"
    "tensors (snd run1) ! length (tensors w1) = tensors (snd run2) ! length (tensors w2)"
    using labeled_vs_unlabeled_loop[OF p d, of F steps "[0..<nat B]"]
    unfolding run1_def run2_def by simp_all
  show ?thesis
    unfolding e1 e2 using a by (cases "fst run2") simp_all
qed


subsection \<open>Effects, determinism, and the data with and without labels\<close>

text \<open>
  C7. A call of the generator leaves every dataset of the store as it was, the captured
  \<open>samples\<close> and \<open>labels\<close> among them, and every array allocated before the call; the
  references it returns are distinct and fresh, to arrays allocated by this call. The
  generator has no state of its own besides the random number generator: whatever arrays
  the store holds (whatever became of earlier batches), the call returns the same arrays
  and leaves the same generator state. A batch is not shared between calls: the arrays of a
  second call are disjoint from those of the first, which the second call leaves untouched.
\<close>

theorem sampler_frame:
  assumes "batches FLOAT samples labels steps batch_size w = (r, w')"
    and "batches FLOAT samples labels steps batch_size w' = (r2, w2)"
  shows "mats w' = mats w \<and>
         (\<forall>a<length (tensors w). tensors w' ! a = tensors w ! a) \<and>
         (\<forall>as. r = Inr as \<longrightarrow>
            distinct as \<and> (\<forall>a\<in>set as. length (tensors w) \<le> a \<and> a < length (tensors w'))) \<and>
         (\<forall>ts. returned (batches FLOAT samples labels steps batch_size (w\<lparr>tensors := ts\<rparr>)) =
                 returned (r, w') \<and>
               rng (snd (batches FLOAT samples labels steps batch_size (w\<lparr>tensors := ts\<rparr>))) =
                 rng w') \<and>
         (\<forall>as as2. r = Inr as \<and> r2 = Inr as2 \<longrightarrow>
            set as \<inter> set as2 = {} \<and> (\<forall>a\<in>set as. tensors w2 ! a = tensors w' ! a))"
proof -
  have f1: "mats w' = mats w" "length (tensors w) \<le> length (tensors w')"
    "\<forall>a<length (tensors w). tensors w' ! a = tensors w ! a"
    "\<forall>as. r = Inr as \<longrightarrow>
       distinct as \<and> (\<forall>a\<in>set as. length (tensors w) \<le> a \<and> a < length (tensors w'))"
    using batches_frame[of FLOAT samples labels steps batch_size w] unfolding assms(1)
    by simp_all
  have f2: "\<forall>a<length (tensors w'). tensors w2 ! a = tensors w' ! a"
    "\<forall>as. r2 = Inr as \<longrightarrow> (\<forall>a\<in>set as. length (tensors w') \<le> a)"
    using batches_frame[of FLOAT samples labels steps batch_size w'] unfolding assms(2)
    by simp_all
  have ind: "returned (batches FLOAT samples labels steps batch_size (w\<lparr>tensors := ts\<rparr>)) =
                 returned (r, w') \<and>
               rng (snd (batches FLOAT samples labels steps batch_size (w\<lparr>tensors := ts\<rparr>))) =
                 rng w'" for ts
  proof -
    have p: "rng (w\<lparr>tensors := ts\<rparr>) = rng w" "mats (w\<lparr>tensors := ts\<rparr>) samples = mats w samples"
      "\<forall>l. labels = Some l \<longrightarrow> mats (w\<lparr>tensors := ts\<rparr>) l = mats w l"
      by simp_all
    show ?thesis
      using batches_agree[OF p, of FLOAT steps batch_size] unfolding assms(1) by simp
  qed
  have two: "set as \<inter> set as2 = {} \<and> (\<forall>a\<in>set as. tensors w2 ! a = tensors w' ! a)"
    if "r = Inr as \<and> r2 = Inr as2" for as as2
  proof -
    have a: "\<forall>a\<in>set as. a < length (tensors w')" using f1(4) that by blast
    have b: "\<forall>a\<in>set as2. length (tensors w') \<le> a" using f2(2) that by blast
    have "set as \<inter> set as2 = {}" using a b by fastforce
    moreover have "\<forall>a\<in>set as. tensors w2 ! a = tensors w' ! a" using a f2(1) by blast
    ultimately show ?thesis by blast
  qed
  show ?thesis
    using f1(1,3,4) ind two by blast
qed


theorem sampler_frame_witness:
  "fst (batches real_of_int 0 (Some 1) 2 3 demo_world) = Inr [0, 1] \<and>
   mats (snd (batches real_of_int 0 (Some 1) 2 3 demo_world)) = mats demo_world \<and>
   (\<forall>ts. returned (batches real_of_int 0 (Some 1) 2 3 (demo_world\<lparr>tensors := ts\<rparr>)) =
         returned (batches real_of_int 0 (Some 1) 2 3 demo_world))"
proof -
  let ?run = "batches real_of_int 0 (Some 1) 2 3 demo_world"
  let ?run2 = "batches real_of_int 0 (Some 1) 2 3 (snd ?run)"
  have a: "fst ?run = Inr [0, 1]"
    by (simp add: demo_eval)
  have c1: "?run = (fst ?run, snd ?run)" by simp
  have c2: "?run2 = (fst ?run2, snd ?run2)" by simp
  have "mats (snd ?run) = mats demo_world \<and>
        (\<forall>ts. returned (batches real_of_int 0 (Some 1) 2 3 (demo_world\<lparr>tensors := ts\<rparr>)) =
           returned (fst ?run, snd ?run))"
    using sampler_frame[OF c1 c2] by blast
  then show ?thesis using a by simp
qed

text \<open>
  C8. Two runs of the generator that start from the same state of the random number
  generator, on datasets with the same contents, draw the same offsets, return the same
  arrays (or the same error) and leave the same generator state, whatever else the two
  stores hold: the sampler is a function of its inputs and of the generator state.
\<close>

theorem batches_deterministic:
  assumes "rng w1 = rng w2" "mats w1 samples = mats w2 samples"
    and "\<forall>l. labels = Some l \<longrightarrow> mats w1 l = mats w2 l"
  shows "(\<forall>p. offset (len (mats w1 samples)) steps (rng w1) p =
              offset (len (mats w2 samples)) steps (rng w2) p) \<and>
         returned (batches FLOAT samples labels steps batch_size w1) =
           returned (batches FLOAT samples labels steps batch_size w2) \<and>
         rng (snd (batches FLOAT samples labels steps batch_size w1)) =
           rng (snd (batches FLOAT samples labels steps batch_size w2))"
proof (intro conjI allI)
  fix p
  show "offset (len (mats w1 samples)) steps (rng w1) p =
        offset (len (mats w2 samples)) steps (rng w2) p"
    using assms(1,2) by simp
next
  show "returned (batches FLOAT samples labels steps batch_size w1) =
           returned (batches FLOAT samples labels steps batch_size w2)"
    using batches_agree[OF assms] by blast
next
  show "rng (snd (batches FLOAT samples labels steps batch_size w1)) =
           rng (snd (batches FLOAT samples labels steps batch_size w2))"
    using batches_agree[OF assms] by blast
qed

theorem batches_deterministic_witness:
  "rng demo_world = rng (demo_world\<lparr>tensors := [\<lparr>dims = (0, 0, 0), cells = []\<rparr>]\<rparr>) \<and>
   fst (batches real_of_int 0 (Some 1) 2 3 demo_world) = Inr [0, 1] \<and>
   fst (batches real_of_int 0 (Some 1) 2 3
          (demo_world\<lparr>tensors := [\<lparr>dims = (0, 0, 0), cells = []\<rparr>]\<rparr>)) = Inr [1, 2] \<and>
   returned (batches real_of_int 0 (Some 1) 2 3 demo_world) =
     returned (batches real_of_int 0 (Some 1) 2 3
                 (demo_world\<lparr>tensors := [\<lparr>dims = (0, 0, 0), cells = []\<rparr>]\<rparr>))"
proof -
  let ?w2 = "demo_world\<lparr>tensors := [\<lparr>dims = (0, 0, 0), cells = []\<rparr>]\<rparr>"
  have h: "rng demo_world = rng ?w2" "mats demo_world 0 = mats ?w2 0"
    "\<forall>l. Some (1::nat) = Some l \<longrightarrow> mats demo_world l = mats ?w2 l"
    by simp_all
  have a: "fst (batches real_of_int 0 (Some 1) 2 3 demo_world) = Inr [0, 1]"
    by (simp add: demo_eval)
  have b: "fst (batches real_of_int 0 (Some 1) 2 3 ?w2) = Inr [1, 2]"
    by (simp add: demo_eval)
  show ?thesis
    using h(1) a b batches_deterministic[OF h, of 2 real_of_int 3] by blast
qed

text \<open>
  C9. For labels as long as the samples and the same generator state, the data array of the
  labeled generator equals the data array of the unlabeled generator (and one fails exactly
  when the other does, with the same error); both leave the same generator state. The
  labeled result has two arrays, the unlabeled one has one.
\<close>

theorem labels_do_not_change_data:
  assumes "rng w1 = rng w2" "mats w1 samples = mats w2 samples"
    and "len (mats w1 labels) = len (mats w1 samples)"
  shows "data_array (batches FLOAT samples (Some labels) steps batch_size w1) =
           data_array (batches FLOAT samples None steps batch_size w2) \<and>
         rng (snd (batches FLOAT samples (Some labels) steps batch_size w1)) =
           rng (snd (batches FLOAT samples None steps batch_size w2)) \<and>
         (\<forall>as. fst (batches FLOAT samples (Some labels) steps batch_size w1) = Inr as \<longrightarrow>
            length as = 2) \<and>
         (\<forall>as. fst (batches FLOAT samples None steps batch_size w2) = Inr as \<longrightarrow>
            length as = 1)"
proof (intro conjI)
  show "data_array (batches FLOAT samples (Some labels) steps batch_size w1) =
           data_array (batches FLOAT samples None steps batch_size w2)"
    unfolding data_array_def batches_def option.case
    using labeled_vs_unlabeled_sample[OF assms] by blast
  show "rng (snd (batches FLOAT samples (Some labels) steps batch_size w1)) =
           rng (snd (batches FLOAT samples None steps batch_size w2))"
    unfolding batches_def option.case
    using labeled_vs_unlabeled_sample[OF assms] by blast
  show "\<forall>as. fst (batches FLOAT samples (Some labels) steps batch_size w1) = Inr as \<longrightarrow>
            length as = 2"
    unfolding batches_def option.case
    using labeled_sample_frame[of FLOAT samples labels steps batch_size w1] by auto
  show "\<forall>as. fst (batches FLOAT samples None steps batch_size w2) = Inr as \<longrightarrow>
            length as = 1"
    unfolding batches_def option.case
    using unlabeled_sample_frame[of FLOAT samples steps batch_size w2] by auto
qed

theorem labels_do_not_change_data_witness:
  "len (mats demo_world 1) = len (mats demo_world 0) \<and>
   fst (batches real_of_int 0 (Some 1) 2 3 demo_world) = Inr [0, 1] \<and>
   fst (batches real_of_int 0 None 2 3 demo_world) = Inr [0] \<and>
   data_array (batches real_of_int 0 (Some 1) 2 3 demo_world) =
     data_array (batches real_of_int 0 None 2 3 demo_world)"
proof -
  have h: "rng demo_world = rng demo_world" "mats demo_world 0 = mats demo_world 0"
    "len (mats demo_world 1) = len (mats demo_world 0)"
    by (simp_all add: demo_world_def len_def)
  have a: "fst (batches real_of_int 0 (Some 1) 2 3 demo_world) = Inr [0, 1]"
    by (simp add: demo_eval)
  have b: "fst (batches real_of_int 0 None 2 3 demo_world) = Inr [0]"
    by (simp add: demo_eval)
  show ?thesis
    using h(3) a b labels_do_not_change_data[OF h, of real_of_int 2 3] by blast
qed


subsection \<open>The predictor error\<close>

lemma map2_tabulate:
  "length xs = n \<Longrightarrow> length ys = n \<Longrightarrow> map2 f xs ys = map (\<lambda>i. f (xs ! i) (ys ! i)) [0..<n]"
  by (auto intro: nth_equalityI)

lemma wf3_nth:
  assumes "wf3 t" "dims t = (s, b, d)"
  shows "length (cells t) = s"
    and "n < s \<Longrightarrow> length (cells t ! n) = b"
    and "n < s \<Longrightarrow> i < b \<Longrightarrow> length (cells t ! n ! i) = d"
  using assms by (auto simp: wf3_def list_all_length)

lemma elementwise_tabulate:
  assumes "wf3 a" "wf3 b" "dims a = (s, n, d)" "dims b = (s, n, d)"
  shows "elementwise f a b =
     Inr \<lparr>dims = (s, n, d),
          cells = map (\<lambda>t. map (\<lambda>i. map (\<lambda>k. f (cells a ! t ! i ! k) (cells b ! t ! i ! k))
                                    [0..<d]) [0..<n]) [0..<s]\<rparr>"
proof -
  have rows: "map2 f (cells a ! t ! i) (cells b ! t ! i) =
      map (\<lambda>k. f (cells a ! t ! i ! k) (cells b ! t ! i ! k)) [0..<d]" if "t < s" "i < n" for t i
    using wf3_nth(3)[OF assms(1,3) that] wf3_nth(3)[OF assms(2,4) that]
    by (rule map2_tabulate)
  have planes: "map2 (map2 f) (cells a ! t) (cells b ! t) =
      map (\<lambda>i. map (\<lambda>k. f (cells a ! t ! i ! k) (cells b ! t ! i ! k)) [0..<d]) [0..<n]"
    if "t < s" for t
  proof -
    have "map2 (map2 f) (cells a ! t) (cells b ! t) =
        map (\<lambda>i. map2 f (cells a ! t ! i) (cells b ! t ! i)) [0..<n]"
      using wf3_nth(2)[OF assms(1,3) that] wf3_nth(2)[OF assms(2,4) that]
      by (rule map2_tabulate)
    also have "\<dots> = map (\<lambda>i. map (\<lambda>k. f (cells a ! t ! i ! k) (cells b ! t ! i ! k)) [0..<d]) [0..<n]"
      using rows[OF that] by (intro map_cong[OF refl]) simp
    finally show ?thesis .
  qed
  have "map2 (map2 (map2 f)) (cells a) (cells b) =
      map (\<lambda>t. map2 (map2 f) (cells a ! t) (cells b ! t)) [0..<s]"
    using wf3_nth(1)[OF assms(1,3)] wf3_nth(1)[OF assms(2,4)]
    by (rule map2_tabulate)
  also have "\<dots> = map (\<lambda>t. map (\<lambda>i. map (\<lambda>k. f (cells a ! t ! i ! k) (cells b ! t ! i ! k))
                                    [0..<d]) [0..<n]) [0..<s]"
    using planes by (intro map_cong[OF refl]) simp
  finally show ?thesis
    using assms(3,4) by (simp add: elementwise_def)
qed

lemma wf3_tabulate:
  "wf3 \<lparr>dims = (s, n, d),
        cells = map (\<lambda>t. map (\<lambda>i. map (\<lambda>k. g t i k) [0..<d]) [0..<n]) [0..<s]\<rparr>"
  by (simp add: wf3_def list_all_length)

lemma sum3_tabulate:
  "sum3 \<lparr>dims = (s, n, d),
         cells = map (\<lambda>t. map (\<lambda>i. map (\<lambda>k. g t i k) [0..<d]) [0..<n]) [0..<s]\<rparr> =
   (\<Sum>t\<leftarrow>[0..<s]. \<Sum>i\<leftarrow>[0..<n]. \<Sum>k\<leftarrow>[0..<d]. g t i k)"
  by (simp add: sum3_def comp_def)

lemma wf3_tail3: "wf3 t \<Longrightarrow> wf3 (tail3 t)"
  by (cases "cells t") (auto simp: wf3_def tail3_def split: prod.splits)

lemma wf3_init3: "wf3 t \<Longrightarrow> wf3 (init3 t)"
  by (auto simp: wf3_def init3_def list_all_iff split: prod.splits dest: in_set_butlastD)

lemma cells_tail3:
  "wf3 t \<Longrightarrow> dims t = (s, b, d) \<Longrightarrow> n < s - 1 \<Longrightarrow> cells (tail3 t) ! n = cells t ! Suc n"
  by (simp add: tail3_def wf3_def nth_tl)

lemma cells_init3:
  "wf3 t \<Longrightarrow> dims t = (s, b, d) \<Longrightarrow> n < s - 1 \<Longrightarrow> cells (init3 t) ! n = cells t ! n"
  by (simp add: init3_def wf3_def nth_butlast)

lemma dims_tail3: "dims t = (s, b, d) \<Longrightarrow> dims (tail3 t) = (s - 1, b, d)"
  by (simp add: tail3_def)

lemma dims_init3: "dims t = (s, b, d) \<Longrightarrow> dims (init3 t) = (s - 1, b, d)"
  by (simp add: init3_def)


lemma sum_list_upt_cong3:
  assumes "\<And>t i k. t < s \<Longrightarrow> i < n \<Longrightarrow> k < d \<Longrightarrow> f t i k = g t i k"
  shows "(\<Sum>t\<leftarrow>[0..<s]. \<Sum>i\<leftarrow>[0..<n]. \<Sum>k\<leftarrow>[0..<d]. f t i k) =
         (\<Sum>t\<leftarrow>[0..<s]. \<Sum>i\<leftarrow>[0..<n]. \<Sum>k\<leftarrow>[0..<d]. (g t i k :: real))"
proof -
  have "map (\<lambda>t. \<Sum>i\<leftarrow>[0..<n]. \<Sum>k\<leftarrow>[0..<d]. f t i k) [0..<s] =
        map (\<lambda>t. \<Sum>i\<leftarrow>[0..<n]. \<Sum>k\<leftarrow>[0..<d]. g t i k) [0..<s]"
  proof (rule map_cong[OF refl])
    fix t assume "t \<in> set [0..<s]"
    then have t: "t < s" by simp
    have "map (\<lambda>i. \<Sum>k\<leftarrow>[0..<d]. f t i k) [0..<n] = map (\<lambda>i. \<Sum>k\<leftarrow>[0..<d]. g t i k) [0..<n]"
    proof (rule map_cong[OF refl])
      fix i assume "i \<in> set [0..<n]"
      then have i: "i < n" by simp
      have "map (\<lambda>k. f t i k) [0..<d] = map (\<lambda>k. g t i k) [0..<d]"
        using assms[OF t i] by (intro map_cong[OF refl]) simp
      then show "(\<Sum>k\<leftarrow>[0..<d]. f t i k) = (\<Sum>k\<leftarrow>[0..<d]. g t i k)"
        by (rule arg_cong[where f = sum_list])
    qed
    then show "(\<Sum>i\<leftarrow>[0..<n]. \<Sum>k\<leftarrow>[0..<d]. f t i k) = (\<Sum>i\<leftarrow>[0..<n]. \<Sum>k\<leftarrow>[0..<d]. g t i k)"
      by (rule arg_cong[where f = sum_list])
  qed
  then show ?thesis by (rule arg_cong[where f = sum_list])
qed

lemma unweighted_error_value:
  assumes "wf3 x" "wf3 y" "dims x = (s, b, d)" "dims y = (s', b, d)" "s' - 1 = s - 1"
  shows "\<exists>err sq. elementwise (-) (tail3 x) (init3 y) = Inr err \<and>
           elementwise (*) err err = Inr sq \<and> dims sq = (s - 1, b, d) \<and>
           sum3 sq = (\<Sum>t\<leftarrow>[0..<s - 1]. \<Sum>i\<leftarrow>[0..<b]. \<Sum>k\<leftarrow>[0..<d].
                        (cells x ! Suc t ! i ! k - cells y ! t ! i ! k)\<^sup>2)"
proof -
  let ?X = "tail3 x" and ?Y = "init3 y"
  let ?g = "\<lambda>t i k. cells ?X ! t ! i ! k - cells ?Y ! t ! i ! k"
  let ?err = "\<lparr>dims = (s - 1, b, d),
          cells = map (\<lambda>t. map (\<lambda>i. map (\<lambda>k. ?g t i k) [0..<d]) [0..<b]) [0..<s - 1]\<rparr>"
  let ?h = "\<lambda>t i k. cells ?err ! t ! i ! k * cells ?err ! t ! i ! k"
  let ?sq = "\<lparr>dims = (s - 1, b, d),
          cells = map (\<lambda>t. map (\<lambda>i. map (\<lambda>k. ?h t i k) [0..<d]) [0..<b]) [0..<s - 1]\<rparr>"
  have e: "elementwise (-) ?X ?Y = Inr ?err"
    by (rule elementwise_tabulate[OF wf3_tail3[OF assms(1)] wf3_init3[OF assms(2)]
          dims_tail3[OF assms(3)] dims_init3[OF assms(4), unfolded assms(5)]])
  have wfe: "wf3 ?err" by (rule wf3_tabulate)
  have de: "dims ?err = (s - 1, b, d)" by simp
  have q: "elementwise (*) ?err ?err = Inr ?sq"
    by (rule elementwise_tabulate[OF wfe wfe de de])
  have "sum3 ?sq = (\<Sum>t\<leftarrow>[0..<s - 1]. \<Sum>i\<leftarrow>[0..<b]. \<Sum>k\<leftarrow>[0..<d]. ?h t i k)"
    by (rule sum3_tabulate)
  also have "\<dots> = (\<Sum>t\<leftarrow>[0..<s - 1]. \<Sum>i\<leftarrow>[0..<b]. \<Sum>k\<leftarrow>[0..<d].
                        (cells x ! Suc t ! i ! k - cells y ! t ! i ! k)\<^sup>2)"
  proof (rule sum_list_upt_cong3)
    fix t i k assume t: "t < s - 1" and i: "i < b" and k: "k < d"
    have "cells ?err ! t ! i ! k = ?g t i k" using t i k by simp
    also have "\<dots> = cells x ! Suc t ! i ! k - cells y ! t ! i ! k"
      using cells_tail3[OF assms(1,3) t] cells_init3[OF assms(2,4) t[folded assms(5)]] by simp
    finally show "?h t i k = (cells x ! Suc t ! i ! k - cells y ! t ! i ! k)\<^sup>2"
      by (simp add: power2_eq_square)
  qed
  finally have s: "sum3 ?sq = (\<Sum>t\<leftarrow>[0..<s - 1]. \<Sum>i\<leftarrow>[0..<b]. \<Sum>k\<leftarrow>[0..<d].
                        (cells x ! Suc t ! i ! k - cells y ! t ! i ! k)\<^sup>2)" .
  show ?thesis
    using e q s by (intro exI[of _ ?err] exI[of _ ?sq]) simp
qed


text \<open>
  C10. With the default \<open>generate_prediction\<close>, the identity, the unweighted
  \<open>Predictor_error\<close> of an input \<open>x\<close> and an output \<open>y\<close> is the mean over all entries of
  \<open>(x[1:] - y[:-1])\<^sup>2\<close>, written out entry by entry in \<open>shifted_mse\<close>: it is that number when
  the two shifted tensors have the same shape and at least one entry, a ValueError when the
  shapes differ, and no number (the mean of nothing) when there is no entry. The first
  input frame and the last output frame do not contribute: replacing them by anything
  leaves the error as it is.
\<close>

theorem predictor_error_is_shifted_mse:
  assumes "wf3 (self_x p)" "wf3 y" "\<not> self_weighted p"
    and "dims (self_x p) = (s, b, d)" "dims y = (s', b', d')"
  shows "Predictor_error p y =
           (if (s - 1, b, d) \<noteq> (s' - 1, b', d') then Inl ValueError
            else if (s - 1) * b * d = 0 then Inr None
            else Inr (Some (shifted_mse (self_x p) y))) \<and>
         Predictor_error (p\<lparr>self_x := (self_x p)\<lparr>cells := f0 # tl (cells (self_x p))\<rparr>\<rparr>)
             (y\<lparr>cells := butlast (cells y) @ [fl]\<rparr>) =
           Predictor_error p y"
proof (intro conjI)
  show "Predictor_error p y =
           (if (s - 1, b, d) \<noteq> (s' - 1, b', d') then Inl ValueError
            else if (s - 1) * b * d = 0 then Inr None
            else Inr (Some (shifted_mse (self_x p) y)))"
  proof (cases "(s - 1, b, d) = (s' - 1, b', d')")
    case False
    then have "dims (tail3 (self_x p)) \<noteq> dims (init3 y)"
      using dims_tail3[OF assms(4)] dims_init3[OF assms(5)] by simp
    then have "elementwise (-) (tail3 (self_x p)) (init3 y) = Inl ValueError"
      by (simp add: elementwise_def)
    then show ?thesis
      using False by (simp add: Predictor_error_def generate_prediction_def)
  next
    case True
    then have eq: "s' - 1 = s - 1" "b' = b" "d' = d" by simp_all
    have dy: "dims y = (s', b, d)" using assms(5) eq by simp
    from unweighted_error_value[OF assms(1,2,4) dy eq(1)] obtain err sq where
      v: "elementwise (-) (tail3 (self_x p)) (init3 y) = Inr err"
        "elementwise (*) err err = Inr sq" "dims sq = (s - 1, b, d)"
        "sum3 sq = (\<Sum>t\<leftarrow>[0..<s - 1]. \<Sum>i\<leftarrow>[0..<b]. \<Sum>k\<leftarrow>[0..<d].
                        (cells (self_x p) ! Suc t ! i ! k - cells y ! t ! i ! k)\<^sup>2)"
      by blast
    have run: "Predictor_error p y = Inr (mean3 sq)"
      using assms(3) v(1,2) by (simp add: Predictor_error_def generate_prediction_def)
    have sz: "size3 sq = (s - 1) * b * d"
      using v(3) by (simp add: size3_def)
    show ?thesis
    proof (cases "(s - 1) * b * d = 0")
      case z: True
      then have "mean3 sq = None" using sz by (simp add: mean3_def fdiv_def)
      then show ?thesis using run True z by simp
    next
      case nz: False
      then have "mean3 sq = Some (shifted_mse (self_x p) y)"
        using sz v(4) assms(4) by (simp add: mean3_def fdiv_def shifted_mse_def)
      then show ?thesis using run True nz by simp
    qed
  qed
next
  show "Predictor_error (p\<lparr>self_x := (self_x p)\<lparr>cells := f0 # tl (cells (self_x p))\<rparr>\<rparr>)
             (y\<lparr>cells := butlast (cells y) @ [fl]\<rparr>) =
           Predictor_error p y"
  proof -
    have t: "tail3 ((self_x p)\<lparr>cells := f0 # tl (cells (self_x p))\<rparr>) = tail3 (self_x p)"
      by (simp add: tail3_def)
    have i: "init3 (y\<lparr>cells := butlast (cells y) @ [fl]\<rparr>) = init3 y"
      by (simp add: init3_def)
    show ?thesis
      by (simp add: Predictor_error_def generate_prediction_def t i split: sum.splits)
  qed
qed

theorem predictor_error_is_shifted_mse_witness:
  "wf3 demo_x \<and> wf3 demo_y \<and>
   Predictor_error \<lparr>self_x = demo_x, self_weights = demo_x, self_weighted = False\<rparr> demo_y =
     Inr (Some (shifted_mse demo_x demo_y)) \<and>
   shifted_mse demo_x demo_y = 5 / 4"
proof -
  let ?p = "\<lparr>self_x = demo_x, self_weights = demo_x, self_weighted = False\<rparr>"
  have h: "wf3 (self_x ?p)" "wf3 demo_y" "\<not> self_weighted ?p"
    "dims (self_x ?p) = (3, 1, 2)" "dims demo_y = (3, 1, 2)"
    by (simp_all add: demo_x_def demo_y_def wf3_def)
  have v: "shifted_mse demo_x demo_y = 5 / 4"
    by (simp add: shifted_mse_def demo_x_def demo_y_def upt_conv_Cons)
  show ?thesis
    using h(1,2) v predictor_error_is_shifted_mse[OF h] by simp
qed


end
